theory Spec2Isabelle
  imports Complex_Main "HOL-Library.FSet" "HOL-Library.AList"
begin

section \<open>The polygonal ROI vehicle counter\<close>

text \<open>
  A shallow embedding of the class \<^verbatim>\<open>PolygonalROIVehicleCounter\<close> of
  \<^verbatim>\<open>src/main.ipynb\<close>: the ROI definition methods, the two membership tests,
  the per-frame counting loop of \<^verbatim>\<open>process_frame\<close> and the main loop of
  \<^verbatim>\<open>run\<close> with its reset branch.

  Conventions of the embedding.
  \<^item> Python's insertion-ordered \<^verbatim>\<open>dict\<close> is an association list: \<open>d[k] = v\<close> is
    \<open>AList.update k v d\<close> (an existing key keeps its place, a new key goes last),
    \<open>d.clear()\<close> gives \<open>[]\<close>, a lookup is \<open>map_of d k\<close>. A \<^verbatim>\<open>defaultdict\<close> read of a
    missing key yields the default (\<open>[]\<close> or \<open>0\<close>).
  \<^item> Python's \<^verbatim>\<open>set\<close> is a finite set (\<open>fset\<close>).
  \<^item> Coordinates of bounding boxes are real numbers in the first part of the model, which
    covers frames whose boxes are finite; the rounding of the tracker's floating-point
    numbers is not part of the model. The last part of the model takes the boxes as
    float32 values, with infinities and NaN, and has the exceptions that
    \<^verbatim>\<open>process_frame\<close> raises; on finite boxes the two parts agree
    (\<open>process_frame_raw_finite\<close>).
  \<^item> \<^verbatim>\<open>cv2.pointPolygonTest\<close> belongs to OpenCV, not to this program: every function
    that calls it takes it as the parameter \<open>ppt\<close>.
  \<^item> The tracker (\<^verbatim>\<open>self.model.track\<close>), the image filter and all drawing are outside
    the model: \<open>process_frame\<close> takes the tracker's result as its input. Drawing does not
    change the counter; whether it returns is a parameter of \<open>process_frame_raw\<close>.
  \<^item> Of the console output only the count events printed at line 268 are kept, as the
    second component of what the counting functions return.
\<close>

subsection \<open>Data\<close>

type_synonym point = "int \<times> int"
type_synonym fpoint = "real \<times> real"
type_synonym box = "real \<times> real \<times> real \<times> real"

text \<open>
  One row of \<^verbatim>\<open>zip(boxes, track_ids, classes, confidences)\<close>. The type of the box is a
  parameter: a \<open>box\<close> of real numbers below, the tracker's raw floats in the last part of
  the model.
\<close>
record 'b detection_of =
  box :: 'b
  track_id :: int
  cls :: int
  conf :: real

type_synonym detection = "box detection_of"

text \<open>The value stored per track id in the two snapshots of the current frame.\<close>
record 'b vehicle_of =
  vclass :: string
  vbox :: 'b
  vconfidence :: real

type_synonym vehicle = "box vehicle_of"

text \<open>\<^verbatim>\<open>(class_name, track_id, len(self.seen_ids))\<close> of the message printed at line 268.\<close>
type_synonym count_event = "string \<times> int \<times> nat"

text \<open>\<^verbatim>\<open>cv2.pointPolygonTest(contour, pt, measureDist)\<close>, on points of type \<open>'p\<close>.\<close>
type_synonym 'p ppt_of = "point list \<Rightarrow> 'p \<Rightarrow> bool \<Rightarrow> real"

type_synonym ppt = "fpoint ppt_of"

record 'b counter_of =
  track_history :: "(int \<times> point list) list"
  seen_ids :: "int fset"
  vehicle_counts :: "(string \<times> int) list"
  current_vehicles_in_frame :: "(int \<times> 'b vehicle_of) list"
  current_vehicles_in_roi :: "(int \<times> 'b vehicle_of) list"
  roi_points :: "point list"
  roi_defined :: bool
  drawing_roi :: bool
  frame_count :: int

type_synonym counter = "box counter_of"

text \<open>\<^verbatim>\<open>__init__\<close>, lines 29 to 43.\<close>
definition init_state :: counter where
  "init_state =
     \<lparr>track_history = [], seen_ids = {||}, vehicle_counts = [],
      current_vehicles_in_frame = [], current_vehicles_in_roi = [],
      roi_points = [], roi_defined = False, drawing_roi = False, frame_count = 0\<rparr>"

text \<open>\<^verbatim>\<open>self.vehicle_classes\<close>, lines 25 to 27.\<close>
definition vehicle_classes :: "(int \<times> string) list" where
  "vehicle_classes = [(2, ''car''), (3, ''motorcycle''), (5, ''bus''), (7, ''truck'')]"

text \<open>Python's \<^verbatim>\<open>int(x)\<close> on a float: truncation towards zero.\<close>
definition py_int :: "real \<Rightarrow> int" where
  "py_int x = (if 0 \<le> x then \<lfloor>x\<rfloor> else \<lceil>x\<rceil>)"

subsection \<open>ROI definition\<close>

text \<open>
  The events of the window of \<^verbatim>\<open>define_roi_interactive\<close>, in the order they happen:
  a mouse event runs \<^verbatim>\<open>mouse_callback\<close>, a key is what one \<^verbatim>\<open>cv2.waitKey(1) & 0xFF\<close>
  returns.
\<close>
datatype ui_event =
  LButtonDown int int
  | RButtonDown
  | OtherMouse
  | KeySpace
  | KeyEsc
  | KeyOther

text \<open>
  The message printed on leaving the loop: line 106 with \<^verbatim>\<open>len(self.roi_points)\<close>, or
  line 112.
\<close>
datatype roi_message = Confirmed nat | Skipped

text \<open>
  The \<^verbatim>\<open>while True\<close> loop of lines 99 to 113 together with the mouse callback of lines
  59 to 72. The loop leaves only through one of its two \<^verbatim>\<open>break\<close>s; when the events
  run out before that, it never returns, which is \<open>None\<close>.
\<close>
fun roi_loop :: "counter \<Rightarrow> ui_event list \<Rightarrow> (counter \<times> roi_message) option" where
  "roi_loop s [] = None"
| "roi_loop s (LButtonDown x y # es) = roi_loop (s\<lparr>roi_points := roi_points s @ [(x, y)]\<rparr>) es"
| "roi_loop s (RButtonDown # es) =
     (if roi_points s \<noteq> [] then roi_loop (s\<lparr>roi_points := butlast (roi_points s)\<rparr>) es
      else roi_loop s es)"
| "roi_loop s (OtherMouse # es) = roi_loop s es"
| "roi_loop s (KeySpace # es) =
     (if length (roi_points s) \<ge> 3
      then Some (s\<lparr>roi_defined := True\<rparr>, Confirmed (length (roi_points s)))
      else roi_loop s es)"
| "roi_loop s (KeyEsc # es) = Some (s, Skipped)"
| "roi_loop s (KeyOther # es) = roi_loop s es"

text \<open>\<^verbatim>\<open>define_roi_interactive\<close>, lines 45 to 115.\<close>
definition define_roi_interactive :: "counter \<Rightarrow> ui_event list \<Rightarrow> (counter \<times> roi_message) option" where
  "define_roi_interactive s es = roi_loop (s\<lparr>roi_points := []\<rparr>) es"

text \<open>\<^verbatim>\<open>auto_define_roi\<close>, lines 117 to 139; \<open>height\<close> and \<open>width\<close> are \<^verbatim>\<open>frame.shape[:2]\<close>.\<close>
definition auto_define_roi :: "counter \<Rightarrow> int \<Rightarrow> int \<Rightarrow> counter" where
  "auto_define_roi s height width =
     (let center_x = width div 2;
          center_y = height div 2;
          margin_x = py_int (of_int width * 0.1);
          margin_y = py_int (of_int height * 0.15)
      in s\<lparr>roi_points :=
             [(center_x, margin_y),
              (width - margin_x, center_y),
              (center_x, height - margin_y),
              (margin_x, center_y)],
           roi_defined := True\<rparr>)"

text \<open>\<^verbatim>\<open>create_rectangular_roi\<close>, lines 141 to 160.\<close>
definition create_rectangular_roi :: "counter \<Rightarrow> int \<Rightarrow> int \<Rightarrow> counter" where
  "create_rectangular_roi s height width =
     (let margin_x = py_int (of_int width * 0.1);
          margin_y = py_int (of_int height * 0.15)
      in s\<lparr>roi_points :=
             [(margin_x, margin_y),
              (width - margin_x, margin_y),
              (width - margin_x, height - margin_y),
              (margin_x, height - margin_y)],
           roi_defined := True\<rparr>)"

subsection \<open>Membership tests\<close>

text \<open>\<^verbatim>\<open>is_point_in_roi\<close>, lines 162 to 171.\<close>
definition is_point_in_roi :: "'p ppt_of \<Rightarrow> 'b counter_of \<Rightarrow> 'p \<Rightarrow> bool" where
  "is_point_in_roi ppt s pt =
     (if \<not> roi_defined s \<or> length (roi_points s) < 3 then True
      else ppt (roi_points s) pt False \<ge> 0)"

text \<open>The list \<^verbatim>\<open>check_points\<close> of lines 184 to 192.\<close>
definition check_points :: "box \<Rightarrow> fpoint list" where
  "check_points b =
     (case b of (x1, y1, x2, y2) \<Rightarrow>
        [((x1 + x2) / 2, (y1 + y2) / 2),
         (x1, y1), (x2, y1), (x1, y2), (x2, y2),
         ((x1 + x2) / 2, y1), ((x1 + x2) / 2, y2),
         (x1, (y1 + y2) / 2), (x2, (y1 + y2) / 2)])"

text \<open>The counting loop of lines 195 to 198.\<close>
fun points_inside :: "'p ppt_of \<Rightarrow> 'b counter_of \<Rightarrow> 'p list \<Rightarrow> nat" where
  "points_inside ppt s [] = 0"
| "points_inside ppt s (p # ps) =
     (if is_point_in_roi ppt s p then 1 + points_inside ppt s ps
      else points_inside ppt s ps)"

text \<open>
  \<^verbatim>\<open>is_vehicle_in_roi\<close>, lines 173 to 201. The product \<^verbatim>\<open>len(check_points) * 0.3\<close> is
  taken in the reals; the float product of Python lies a little below 2.7, above 2, and
  compares with an integer count in the same way.
\<close>
definition is_vehicle_in_roi :: "ppt \<Rightarrow> counter \<Rightarrow> box \<Rightarrow> bool" where
  "is_vehicle_in_roi ppt s b =
     (if \<not> roi_defined s then True
      else real (points_inside ppt s (check_points b)) \<ge> real (length (check_points b)) * 0.3)"

subsection \<open>Counting\<close>

text \<open>\<^verbatim>\<open>self.vehicle_classes.get(cls, 'unknown')\<close>, line 247.\<close>
definition class_name_of :: "int \<Rightarrow> string" where
  "class_name_of c = (case map_of vehicle_classes c of None \<Rightarrow> ''unknown'' | Some n \<Rightarrow> n)"

text \<open>The point \<^verbatim>\<open>(cx, cy)\<close> of line 271.\<close>
definition centroid :: "box \<Rightarrow> point" where
  "centroid b =
     (case b of (x1, y1, x2, y2) \<Rightarrow> (py_int ((x1 + x2) / 2), py_int ((y1 + y2) / 2)))"

text \<open>
  The list stored for a track id, \<open>[]\<close> when there is none: what the \<^verbatim>\<open>defaultdict\<close>
  hands out at line 272 and \<^verbatim>\<open>self.track_history.get(track_id, [])\<close> at line 315.
\<close>
definition history_of :: "'b counter_of \<Rightarrow> int \<Rightarrow> point list" where
  "history_of s i = (case map_of (track_history s) i of None \<Rightarrow> [] | Some h \<Rightarrow> h)"

text \<open>Lines 272 to 274 on the list of one track id: \<^verbatim>\<open>append\<close>, then \<^verbatim>\<open>pop(0)\<close> beyond 30.\<close>
definition append_history :: "point list \<Rightarrow> point \<Rightarrow> point list" where
  "append_history h c = (let h1 = h @ [c] in if length h1 > 30 then tl h1 else h1)"

text \<open>
  The body of the loop over the detections, lines 247 to 274, on a box of finite
  coordinates, where \<^verbatim>\<open>int()\<close> at line 271 returns. The body on the tracker's raw floats,
  where it can raise, is \<open>process_detection_raw\<close>.
\<close>
definition process_detection :: "ppt \<Rightarrow> counter \<Rightarrow> detection \<Rightarrow> counter \<times> count_event list" where
  "process_detection ppt s d =
     (let class_name = class_name_of (cls d);
          info = \<lparr>vclass = class_name, vbox = box d, vconfidence = conf d\<rparr>;
          s1 = s\<lparr>current_vehicles_in_frame :=
                   AList.update (track_id d) info (current_vehicles_in_frame s)\<rparr>;
          (s2, out) =
            (if is_vehicle_in_roi ppt s1 (box d) then
               let s1a = s1\<lparr>current_vehicles_in_roi :=
                               AList.update (track_id d) info (current_vehicles_in_roi s1)\<rparr>
               in if track_id d |\<notin>| seen_ids s1a then
                    let s1b = s1a\<lparr>seen_ids := finsert (track_id d) (seen_ids s1a)\<rparr>;
                        s1c = s1b\<lparr>vehicle_counts :=
                                AList.update class_name
                                  ((case map_of (vehicle_counts s1b) class_name of
                                      None \<Rightarrow> 0 | Some n \<Rightarrow> n) + 1)
                                  (vehicle_counts s1b)\<rparr>
                    in (s1c, [(class_name, track_id d, fcard (seen_ids s1c))])
                  else (s1a, [])
             else (s1, []))
      in (s2\<lparr>track_history :=
               AList.update (track_id d)
                 (append_history (history_of s2 (track_id d)) (centroid (box d)))
                 (track_history s2)\<rparr>,
          out))"

text \<open>The \<^verbatim>\<open>for\<close> loop of line 246.\<close>
fun process_detections :: "ppt \<Rightarrow> counter \<Rightarrow> detection list \<Rightarrow> counter \<times> count_event list" where
  "process_detections ppt s [] = (s, [])"
| "process_detections ppt s (d # ds) =
     (case process_detection ppt s d of (s1, out1) \<Rightarrow>
        case process_detections ppt s1 ds of (s2, out2) \<Rightarrow> (s2, out1 @ out2))"

text \<open>
  \<^verbatim>\<open>process_frame\<close>, lines 216 to 278: the state and the count events that the call
  leaves behind. The argument is the tracker's answer for the frame: \<open>None\<close> when
  \<^verbatim>\<open>results[0].boxes.id\<close> is \<^verbatim>\<open>None\<close>, the zipped rows otherwise. The call of
  \<^verbatim>\<open>draw_annotations\<close> at line 277 does not write the counter and is left out here;
  whether the call returns or raises is told by \<open>process_frame_raw\<close>.
\<close>
definition process_frame :: "ppt \<Rightarrow> counter \<Rightarrow> detection list option \<Rightarrow> counter \<times> count_event list" where
  "process_frame ppt s results =
     (let s0 = s\<lparr>frame_count := frame_count s + 1\<rparr>;
          s1 = s0\<lparr>current_vehicles_in_frame := [], current_vehicles_in_roi := []\<rparr>
      in case results of
           None \<Rightarrow> (s1, [])
         | Some ds \<Rightarrow> process_detections ppt s1 ds)"

text \<open>The branch of key \<^verbatim>\<open>r\<close> in the main loop of \<^verbatim>\<open>run\<close>, lines 464 to 469.\<close>
definition reset :: "counter \<Rightarrow> counter" where
  "reset s = s\<lparr>seen_ids := {||}, vehicle_counts := [], track_history := []\<rparr>"

text \<open>What \<^verbatim>\<open>cv2.waitKey(1) & 0xFF\<close> returns in the main loop.\<close>
datatype key = KeyQ | KeyR | KeyNone

text \<open>
  The main loop of \<^verbatim>\<open>run\<close>, lines 451 to 469: one element of the list per frame the
  video source delivers, with the tracker's answer for it and the key read after it.
  A frame on which \<^verbatim>\<open>draw_annotations\<close> raises ends the loop in the state that key \<^verbatim>\<open>q\<close>
  after that frame gives; a frame on which line 271 raises is the subject of
  \<open>process_frame_raw\<close>.
\<close>
fun run_loop :: "ppt \<Rightarrow> counter \<Rightarrow> (detection list option \<times> key) list \<Rightarrow> counter \<times> count_event list" where
  "run_loop ppt s [] = (s, [])"
| "run_loop ppt s ((results, k) # fs) =
     (case process_frame ppt s results of (s1, out1) \<Rightarrow>
        (case k of
           KeyQ \<Rightarrow> (s1, out1)
         | KeyR \<Rightarrow> (case run_loop ppt (reset s1) fs of (s2, out2) \<Rightarrow> (s2, out1 @ out2))
         | KeyNone \<Rightarrow> (case run_loop ppt s1 fs of (s2, out2) \<Rightarrow> (s2, out1 @ out2))))"

text \<open>
  \<^verbatim>\<open>run\<close>, lines 412 to 473. \<open>opened\<close> is \<^verbatim>\<open>cap.isOpened()\<close>, \<open>ret\<close> the flag of the
  first \<^verbatim>\<open>cap.read()\<close>; the first frame is resized to 1280 by 720 before the ROI is
  defined on it. \<open>None\<close>: the interactive ROI window is never left.
\<close>
definition run ::
  "ppt \<Rightarrow> counter \<Rightarrow> bool \<Rightarrow> bool \<Rightarrow> string \<Rightarrow> ui_event list \<Rightarrow>
   (detection list option \<times> key) list \<Rightarrow> (counter \<times> count_event list) option" where
  "run ppt s opened ret roi_type es fs =
     (if \<not> opened then Some (s, [])
      else if \<not> ret then Some (s, [])
      else
        case (if roi_type = ''interactive'' then map_option fst (define_roi_interactive s es)
              else Some s) of
          None \<Rightarrow> None
        | Some s1 \<Rightarrow>
            let s2 = (if \<not> roi_defined s1 then
                        (if roi_type = ''auto_rectangle'' then create_rectangular_roi s1 720 1280
                         else auto_define_roi s1 720 1280)
                      else s1)
            in Some (run_loop ppt s2 fs))"

text \<open>
  Successive calls of \<open>process_frame\<close> with nothing in between: what the main loop does
  on frames after which no key is pressed.
\<close>
fun process_frames :: "ppt \<Rightarrow> counter \<Rightarrow> detection list option list \<Rightarrow> counter \<times> count_event list" where
  "process_frames ppt s [] = (s, [])"
| "process_frames ppt s (r # rs) =
     (case process_frame ppt s r of (s1, out1) \<Rightarrow>
        case process_frames ppt s1 rs of (s2, out2) \<Rightarrow> (s2, out1 @ out2))"

subsection \<open>The tracker's raw floats and the exceptions of \<open>process_frame\<close>\<close>

text \<open>
  The functions above give the state and the count events that a call leaves behind when
  every box has finite coordinates whose sums at line 271 stay in the float32 range; on
  such boxes nothing in the loop of line 246 can raise. The functions of this part take the boxes as the tracker delivers them, rows of
  a float32 array, and return in a third component what the call raises, if it does.
  A float32 value is a finite number, an infinity or NaN. A sum of finite values that
  leaves the float32 range is infinite; the rounding of a sum that stays in range is not
  modelled.
\<close>
datatype f32 = Fin real | PosInf | NegInf | NaN

type_synonym raw_point = "f32 \<times> f32"
type_synonym raw_box = "f32 \<times> f32 \<times> f32 \<times> f32"
type_synonym raw_detection = "raw_box detection_of"
type_synonym raw_counter = "raw_box counter_of"
type_synonym raw_ppt = "raw_point ppt_of"

text \<open>
  The least magnitude that rounds to an infinity in float32: the largest finite value
  plus half a unit in its last place.
\<close>
definition f32_overflow :: real where
  "f32_overflow = 2 ^ 128 - 2 ^ 103"

text \<open>\<^verbatim>\<open>a + b\<close> on two float32 values.\<close>
fun fadd :: "f32 \<Rightarrow> f32 \<Rightarrow> f32" where
  "fadd (Fin a) (Fin b) =
     (if a + b \<ge> f32_overflow then PosInf
      else if a + b \<le> - f32_overflow then NegInf
      else Fin (a + b))"
| "fadd NaN y = NaN"
| "fadd x NaN = NaN"
| "fadd PosInf NegInf = NaN"
| "fadd NegInf PosInf = NaN"
| "fadd PosInf y = PosInf"
| "fadd x PosInf = PosInf"
| "fadd NegInf y = NegInf"
| "fadd x NegInf = NegInf"

text \<open>\<^verbatim>\<open>a / 2\<close> on a float32 value.\<close>
fun fhalf :: "f32 \<Rightarrow> f32" where
  "fhalf (Fin a) = Fin (a / 2)"
| "fhalf PosInf = PosInf"
| "fhalf NegInf = NegInf"
| "fhalf NaN = NaN"

text \<open>
  The exceptions: \<^verbatim>\<open>int()\<close> raises \<^verbatim>\<open>OverflowError\<close> on an infinity and \<^verbatim>\<open>ValueError\<close> on
  NaN; \<open>DrawingError\<close> stands for whatever \<^verbatim>\<open>draw_annotations\<close> raises.
\<close>
datatype py_error = OverflowError | ValueError | DrawingError

text \<open>Python's \<^verbatim>\<open>int(x)\<close> on a float32 value.\<close>
fun py_int_f32 :: "f32 \<Rightarrow> py_error + int" where
  "py_int_f32 (Fin a) = Inr (py_int a)"
| "py_int_f32 PosInf = Inl OverflowError"
| "py_int_f32 NegInf = Inl OverflowError"
| "py_int_f32 NaN = Inl ValueError"

text \<open>The list \<^verbatim>\<open>check_points\<close> of lines 184 to 192, in float32.\<close>
definition check_points_raw :: "raw_box \<Rightarrow> raw_point list" where
  "check_points_raw b =
     (case b of (x1, y1, x2, y2) \<Rightarrow>
        [(fhalf (fadd x1 x2), fhalf (fadd y1 y2)),
         (x1, y1), (x2, y1), (x1, y2), (x2, y2),
         (fhalf (fadd x1 x2), y1), (fhalf (fadd x1 x2), y2),
         (x1, fhalf (fadd y1 y2)), (x2, fhalf (fadd y1 y2))])"

text \<open>\<^verbatim>\<open>is_vehicle_in_roi\<close>, lines 173 to 201, on a raw box.\<close>
definition is_vehicle_in_roi_raw :: "raw_ppt \<Rightarrow> raw_counter \<Rightarrow> raw_box \<Rightarrow> bool" where
  "is_vehicle_in_roi_raw ppt s b =
     (if \<not> roi_defined s then True
      else real (points_inside ppt s (check_points_raw b))
             \<ge> real (length (check_points_raw b)) * 0.3)"

text \<open>
  Line 271: the two calls of \<^verbatim>\<open>int()\<close>, left to right; the first that raises decides the
  exception.
\<close>
definition centroid_raw :: "raw_box \<Rightarrow> py_error + point" where
  "centroid_raw b =
     (case b of (x1, y1, x2, y2) \<Rightarrow>
        (case py_int_f32 (fhalf (fadd x1 x2)) of
           Inl e \<Rightarrow> Inl e
         | Inr cx \<Rightarrow>
             (case py_int_f32 (fhalf (fadd y1 y2)) of
                Inl e \<Rightarrow> Inl e
              | Inr cy \<Rightarrow> Inr (cx, cy))))"

text \<open>
  The body of the loop, lines 247 to 274, on a raw detection. When line 271 raises, the
  snapshots, \<open>seen_ids\<close> and the counts have been written already and the trajectory has
  not.
\<close>
definition process_detection_raw ::
  "raw_ppt \<Rightarrow> raw_counter \<Rightarrow> raw_detection \<Rightarrow> raw_counter \<times> count_event list \<times> py_error option" where
  "process_detection_raw ppt s d =
     (let class_name = class_name_of (cls d);
          info = \<lparr>vclass = class_name, vbox = box d, vconfidence = conf d\<rparr>;
          s1 = s\<lparr>current_vehicles_in_frame :=
                   AList.update (track_id d) info (current_vehicles_in_frame s)\<rparr>;
          (s2, out) =
            (if is_vehicle_in_roi_raw ppt s1 (box d) then
               let s1a = s1\<lparr>current_vehicles_in_roi :=
                               AList.update (track_id d) info (current_vehicles_in_roi s1)\<rparr>
               in if track_id d |\<notin>| seen_ids s1a then
                    let s1b = s1a\<lparr>seen_ids := finsert (track_id d) (seen_ids s1a)\<rparr>;
                        s1c = s1b\<lparr>vehicle_counts :=
                                AList.update class_name
                                  ((case map_of (vehicle_counts s1b) class_name of
                                      None \<Rightarrow> 0 | Some n \<Rightarrow> n) + 1)
                                  (vehicle_counts s1b)\<rparr>
                    in (s1c, [(class_name, track_id d, fcard (seen_ids s1c))])
                  else (s1a, [])
             else (s1, []))
      in case centroid_raw (box d) of
           Inl e \<Rightarrow> (s2, out, Some e)
         | Inr c \<Rightarrow>
             (s2\<lparr>track_history :=
                   AList.update (track_id d)
                     (append_history (history_of s2 (track_id d)) c)
                     (track_history s2)\<rparr>,
              out, None))"

text \<open>The \<^verbatim>\<open>for\<close> loop of line 246: an exception ends it.\<close>
fun process_detections_raw ::
  "raw_ppt \<Rightarrow> raw_counter \<Rightarrow> raw_detection list \<Rightarrow> raw_counter \<times> count_event list \<times> py_error option" where
  "process_detections_raw ppt s [] = (s, [], None)"
| "process_detections_raw ppt s (d # ds) =
     (case process_detection_raw ppt s d of
        (s1, out1, Some e) \<Rightarrow> (s1, out1, Some e)
      | (s1, out1, None) \<Rightarrow>
          (case process_detections_raw ppt s1 ds of (s2, out2, r) \<Rightarrow> (s2, out1 @ out2, r)))"

text \<open>
  \<^verbatim>\<open>process_frame\<close>, lines 216 to 278, with its exceptions. \<open>draws s results\<close> says whether
  the call of \<^verbatim>\<open>draw_annotations\<close> at line 277 returns in state \<open>s\<close>; it is a parameter, as
  drawing is done by OpenCV, and it does not change the counter.
\<close>
definition process_frame_raw ::
  "raw_ppt \<Rightarrow> (raw_counter \<Rightarrow> raw_detection list option \<Rightarrow> bool) \<Rightarrow> raw_counter \<Rightarrow>
   raw_detection list option \<Rightarrow> raw_counter \<times> count_event list \<times> py_error option" where
  "process_frame_raw ppt draws s results =
     (let s0 = s\<lparr>frame_count := frame_count s + 1\<rparr>;
          s1 = s0\<lparr>current_vehicles_in_frame := [], current_vehicles_in_roi := []\<rparr>
      in case (case results of
                 None \<Rightarrow> (s1, [], None)
               | Some ds \<Rightarrow> process_detections_raw ppt s1 ds) of
           (s2, out, Some e) \<Rightarrow> (s2, out, Some e)
         | (s2, out, None) \<Rightarrow>
             (s2, out, if draws s2 results then None else Some DrawingError))"

subsection \<open>Notions used to state the properties\<close>

text \<open>The rows of one tracker answer: none when \<^verbatim>\<open>results[0].boxes.id\<close> is \<^verbatim>\<open>None\<close>.\<close>
definition frame_detections :: "detection list option \<Rightarrow> detection list" where
  "frame_detections r = (case r of None \<Rightarrow> [] | Some ds \<Rightarrow> ds)"

text \<open>The detections of a sequence of frames, in the order they are processed.\<close>
definition detections_of :: "detection list option list \<Rightarrow> detection list" where
  "detections_of rs = concat (map frame_detections rs)"

text \<open>The track id named by a count event.\<close>
definition event_id :: "count_event \<Rightarrow> int" where
  "event_id e = fst (snd e)"

text \<open>The track ids of the detections that \<open>is_vehicle_in_roi\<close> accepts, in order.\<close>
definition in_roi_ids :: "ppt \<Rightarrow> counter \<Rightarrow> detection list \<Rightarrow> int list" where
  "in_roi_ids ppt s ds = map track_id (filter (\<lambda>d. is_vehicle_in_roi ppt s (box d)) ds)"

text \<open>The centroids of the detections of one track id, in order.\<close>
definition sightings :: "int \<Rightarrow> detection list \<Rightarrow> point list" where
  "sightings i ds = map (\<lambda>d. centroid (box d)) (filter (\<lambda>d. track_id d = i) ds)"

text \<open>\<^verbatim>\<open>sum(self.vehicle_counts.values())\<close>.\<close>
definition sum_counts :: "counter \<Rightarrow> int" where
  "sum_counts s = sum_list (map snd (vehicle_counts s))"

text \<open>A counter whose ROI is marked as defined holds a polygon of at least 3 vertices.\<close>
definition roi_invariant :: "counter \<Rightarrow> bool" where
  "roi_invariant s \<longleftrightarrow> (roi_defined s \<longrightarrow> 3 \<le> length (roi_points s))"

text \<open>Line 271 raises on this box.\<close>
definition int_raises :: "raw_box \<Rightarrow> bool" where
  "int_raises b \<longleftrightarrow> isl (centroid_raw b)"

text \<open>A box of finite coordinates whose two sums of line 271 stay in the float32 range.\<close>
definition in_range :: "box \<Rightarrow> bool" where
  "in_range b =
     (case b of (x1, y1, x2, y2) \<Rightarrow> \<bar>x1 + x2\<bar> < f32_overflow \<and> \<bar>y1 + y2\<bar> < f32_overflow)"

text \<open>Finite boxes, detections and counters as raw ones.\<close>
definition raw_box_of :: "box \<Rightarrow> raw_box" where
  "raw_box_of b = (case b of (x1, y1, x2, y2) \<Rightarrow> (Fin x1, Fin y1, Fin x2, Fin y2))"

definition raw_detection_of :: "detection \<Rightarrow> raw_detection" where
  "raw_detection_of d =
     \<lparr>box = raw_box_of (box d), track_id = track_id d, cls = cls d, conf = conf d\<rparr>"

definition raw_vehicle_of :: "vehicle \<Rightarrow> raw_box vehicle_of" where
  "raw_vehicle_of v = \<lparr>vclass = vclass v, vbox = raw_box_of (vbox v), vconfidence = vconfidence v\<rparr>"

definition raw_counter_of :: "counter \<Rightarrow> raw_counter" where
  "raw_counter_of s =
     \<lparr>track_history = track_history s, seen_ids = seen_ids s, vehicle_counts = vehicle_counts s,
      current_vehicles_in_frame = map (\<lambda>(k, v). (k, raw_vehicle_of v)) (current_vehicles_in_frame s),
      current_vehicles_in_roi = map (\<lambda>(k, v). (k, raw_vehicle_of v)) (current_vehicles_in_roi s),
      roi_points = roi_points s, roi_defined = roi_defined s, drawing_roi = drawing_roi s,
      frame_count = frame_count s\<rparr>"

text \<open>The polygon test on raw points answers on finite points as the one on real points.\<close>
definition ppt_agree :: "raw_ppt \<Rightarrow> ppt \<Rightarrow> bool" where
  "ppt_agree rppt ppt \<longleftrightarrow> (\<forall>poly x y md. rppt poly (Fin x, Fin y) md = ppt poly (x, y) md)"

text \<open>The centroids recorded for one track id, in order, when line 271 raises on none.\<close>
definition raw_sightings :: "int \<Rightarrow> raw_detection list \<Rightarrow> point list" where
  "raw_sightings i ds =
     map (\<lambda>d. projr (centroid_raw (box d))) (filter (\<lambda>d. track_id d = i) ds)"

subsection \<open>A concrete ROI for the examples\<close>

text \<open>
  The square of the specification's scenarios as the confirmed ROI of a new counter, and
  the answers of \<^verbatim>\<open>pointPolygonTest\<close> for that square: 1 inside, 0 on the boundary,
  -1 outside.
\<close>
abbreviation square_counter :: counter where
  "square_counter \<equiv>
     init_state\<lparr>roi_points := [(0, 0), (100, 0), (100, 100), (0, 100)], roi_defined := True\<rparr>"

abbreviation square_test :: ppt where
  "square_test \<equiv> \<lambda>poly pt md.
     (case pt of (x, y) \<Rightarrow>
        if 0 < x \<and> x < 100 \<and> 0 < y \<and> y < 100 then 1
        else if 0 \<le> x \<and> x \<le> 100 \<and> 0 \<le> y \<and> y \<le> 100 then 0 else - 1)"

text \<open>
  Detections for the examples: the car of the specification's scenario inside and
  outside the square, a bus, a detection whose box has its corners swapped, forty
  frames that show identity 7 moving along the diagonal, and the clicks that draw the
  square in the ROI window.
\<close>
abbreviation car7_inside :: detection where
  "car7_inside \<equiv> \<lparr>box = (40, 40, 60, 60), track_id = 7, cls = 2, conf = 0.9\<rparr>"

abbreviation car7_outside :: detection where
  "car7_outside \<equiv> \<lparr>box = (200, 200, 220, 220), track_id = 7, cls = 2, conf = 0.9\<rparr>"

abbreviation bus8_inside :: detection where
  "bus8_inside \<equiv> \<lparr>box = (10, 10, 30, 30), track_id = 8, cls = 5, conf = 0.8\<rparr>"

abbreviation bus8_outside :: detection where
  "bus8_outside \<equiv> \<lparr>box = (200, 200, 220, 220), track_id = 8, cls = 5, conf = 0.8\<rparr>"

abbreviation car9_inverted :: detection where
  "car9_inverted \<equiv> \<lparr>box = (60, 60, 40, 40), track_id = 9, cls = 2, conf = 0.9\<rparr>"

abbreviation forty_frames :: "detection list option list" where
  "forty_frames \<equiv>
     map (\<lambda>k. Some [\<lparr>box = (real k, real k, real k + 10, real k + 10), track_id = 7,
                       cls = 2, conf = 0.9\<rparr>]) [0..<40]"

abbreviation square_clicks :: "ui_event list" where
  "square_clicks \<equiv>
     [LButtonDown 0 0, LButtonDown 100 0, LButtonDown 100 100, LButtonDown 0 100, KeySpace]"

text \<open>
  The same square for raw boxes (a point that is not finite is outside), and a detection
  whose box is inverted with an infinite left edge.
\<close>
abbreviation raw_square_counter :: raw_counter where
  "raw_square_counter \<equiv> raw_counter_of square_counter"

abbreviation raw_square_test :: raw_ppt where
  "raw_square_test \<equiv> \<lambda>poly pt md.
     (case pt of (Fin x, Fin y) \<Rightarrow> square_test poly (x, y) md | _ \<Rightarrow> - 1)"

abbreviation car9_infinite :: raw_detection where
  "car9_infinite \<equiv> \<lparr>box = (PosInf, Fin 60, Fin 40, Fin 40), track_id = 9, cls = 2, conf = 0.9\<rparr>"

section \<open>Properties\<close>

subsection \<open>Auxiliary facts about the counting loop\<close>

lemma is_point_in_roi_cong:
  "roi_points s = roi_points t \<Longrightarrow> roi_defined s = roi_defined t \<Longrightarrow>
   is_point_in_roi ppt s = is_point_in_roi ppt t"
  by (rule ext) (simp add: is_point_in_roi_def)

lemma points_inside_cong:
  "roi_points s = roi_points t \<Longrightarrow> roi_defined s = roi_defined t \<Longrightarrow>
   points_inside ppt s ps = points_inside ppt t ps"
  by (induction ps) (simp_all add: is_point_in_roi_cong [of s t])

lemma is_vehicle_in_roi_cong:
  "roi_points s = roi_points t \<Longrightarrow> roi_defined s = roi_defined t \<Longrightarrow>
   is_vehicle_in_roi ppt s b = is_vehicle_in_roi ppt t b"
  by (simp add: is_vehicle_in_roi_def points_inside_cong [of s t])

lemma pd_roi_points [simp]: "roi_points (fst (process_detection ppt s d)) = roi_points s"
  by (simp add: process_detection_def Let_def split: prod.splits if_splits)

lemma pd_roi_defined [simp]: "roi_defined (fst (process_detection ppt s d)) = roi_defined s"
  by (simp add: process_detection_def Let_def split: prod.splits if_splits)

lemma pd_frame_count [simp]: "frame_count (fst (process_detection ppt s d)) = frame_count s"
  by (simp add: process_detection_def Let_def split: prod.splits if_splits)

lemma pd_seen_ids:
  "seen_ids (fst (process_detection ppt s d)) =
     (if is_vehicle_in_roi ppt s (box d) then finsert (track_id d) (seen_ids s) else seen_ids s)"
  by (auto simp add: process_detection_def Let_def
        is_vehicle_in_roi_cong [of "s\<lparr>current_vehicles_in_frame := x\<rparr>" s for x]
      split: prod.splits if_splits)

lemma pd_out:
  "snd (process_detection ppt s d) =
     (if is_vehicle_in_roi ppt s (box d) \<and> track_id d |\<notin>| seen_ids s
      then [(class_name_of (cls d), track_id d, Suc (fcard (seen_ids s)))] else [])"
  by (auto simp add: process_detection_def Let_def fcard_finsert_disjoint
        is_vehicle_in_roi_cong [of "s\<lparr>current_vehicles_in_frame := x\<rparr>" s for x]
      split: prod.splits if_splits)

lemma pd_vehicle_counts:
  "vehicle_counts (fst (process_detection ppt s d)) =
     (if is_vehicle_in_roi ppt s (box d) \<and> track_id d |\<notin>| seen_ids s
      then AList.update (class_name_of (cls d))
             ((case map_of (vehicle_counts s) (class_name_of (cls d)) of None \<Rightarrow> 0 | Some n \<Rightarrow> n) + 1)
             (vehicle_counts s)
      else vehicle_counts s)"
  by (auto simp add: process_detection_def Let_def
        is_vehicle_in_roi_cong [of "s\<lparr>current_vehicles_in_frame := x\<rparr>" s for x]
      split: prod.splits if_splits)

lemma pd_track_history:
  "track_history (fst (process_detection ppt s d)) =
     AList.update (track_id d)
       (append_history (history_of s (track_id d)) (centroid (box d))) (track_history s)"
  by (auto simp add: process_detection_def Let_def history_of_def
      split: prod.splits if_splits)

lemma pd_in_frame:
  "current_vehicles_in_frame (fst (process_detection ppt s d)) =
     AList.update (track_id d)
       \<lparr>vclass = class_name_of (cls d), vbox = box d, vconfidence = conf d\<rparr>
       (current_vehicles_in_frame s)"
  by (auto simp add: process_detection_def Let_def split: prod.splits if_splits)

lemma pd_in_roi:
  "current_vehicles_in_roi (fst (process_detection ppt s d)) =
     (if is_vehicle_in_roi ppt s (box d) then
        AList.update (track_id d)
          \<lparr>vclass = class_name_of (cls d), vbox = box d, vconfidence = conf d\<rparr>
          (current_vehicles_in_roi s)
      else current_vehicles_in_roi s)"
  by (auto simp add: process_detection_def Let_def
        is_vehicle_in_roi_cong [of "s\<lparr>current_vehicles_in_frame := x\<rparr>" s for x]
      split: prod.splits if_splits)

lemma pds_roi [simp]:
  "roi_points (fst (process_detections ppt s ds)) = roi_points s"
  "roi_defined (fst (process_detections ppt s ds)) = roi_defined s"
  by (induction ds arbitrary: s) (simp_all add: case_prod_beta)

lemma pd_in_roi_same:
  "is_vehicle_in_roi ppt (fst (process_detection ppt s d)) b = is_vehicle_in_roi ppt s b"
  by (rule is_vehicle_in_roi_cong) simp_all

lemma in_roi_ids_pd:
  "in_roi_ids ppt (fst (process_detection ppt s d)) ds = in_roi_ids ppt s ds"
  by (simp add: in_roi_ids_def pd_in_roi_same)

lemma pds_seen_ids:
  "seen_ids (fst (process_detections ppt s ds)) = seen_ids s |\<union>| fset_of_list (in_roi_ids ppt s ds)"
proof (induction ds arbitrary: s)
  case Nil
  then show ?case by (simp add: in_roi_ids_def)
next
  case (Cons d ds)
  have "seen_ids (fst (process_detections ppt s (d # ds))) =
        seen_ids (fst (process_detection ppt s d)) |\<union>| fset_of_list (in_roi_ids ppt s ds)"
    by (simp add: case_prod_beta Cons.IH in_roi_ids_pd)
  then show ?case
    by (auto simp add: pd_seen_ids in_roi_ids_def)
qed

lemma pds_out_count:
  "count_list (map event_id (snd (process_detections ppt s ds))) i =
     (if i |\<notin>| seen_ids s \<and> i \<in> set (in_roi_ids ppt s ds) then 1 else 0)"
proof (induction ds arbitrary: s)
  case Nil
  then show ?case by (simp add: in_roi_ids_def)
next
  case (Cons d ds)
  let ?s1 = "fst (process_detection ppt s d)"
  have split: "count_list (map event_id (snd (process_detections ppt s (d # ds)))) i =
        count_list (map event_id (snd (process_detection ppt s d))) i +
        count_list (map event_id (snd (process_detections ppt ?s1 ds))) i"
    by (simp add: case_prod_beta)
  have tail: "count_list (map event_id (snd (process_detections ppt ?s1 ds))) i =
        (if i |\<notin>| seen_ids ?s1 \<and> i \<in> set (in_roi_ids ppt s ds) then 1 else 0)"
    by (simp add: Cons.IH in_roi_ids_pd)
  show ?case
    unfolding split tail
    by (auto simp add: pd_out pd_seen_ids event_id_def in_roi_ids_def)
qed

lemma sum_counts_update:
  "sum_list (map snd (AList.update k ((case map_of al k of None \<Rightarrow> 0 | Some n \<Rightarrow> n) + 1) al)) =
   sum_list (map snd al) + (1::int)"
  by (induction al) (auto)

lemma pd_sum_counts:
  "sum_counts (fst (process_detection ppt s d)) =
     sum_counts s + int (length (snd (process_detection ppt s d)))"
  by (simp add: sum_counts_def pd_vehicle_counts pd_out sum_counts_update)

lemma pd_fcard:
  "fcard (seen_ids (fst (process_detection ppt s d))) =
     fcard (seen_ids s) + length (snd (process_detection ppt s d))"
  by (simp add: pd_seen_ids pd_out fcard_finsert_if)

lemma pds_sum_counts:
  "sum_counts (fst (process_detections ppt s ds)) =
     sum_counts s + int (length (snd (process_detections ppt s ds)))"
  by (induction ds arbitrary: s) (simp_all add: case_prod_beta pd_sum_counts)

lemma pds_fcard:
  "fcard (seen_ids (fst (process_detections ppt s ds))) =
     fcard (seen_ids s) + length (snd (process_detections ppt s ds))"
  by (induction ds arbitrary: s) (simp_all add: case_prod_beta pd_fcard)

lemma append_history_step:
  "append_history h c = drop (Suc (length h) - 30) (h @ [c])" if "length h \<le> 30"
proof (cases "length h = 30")
  case True
  have "tl (h @ [c]) = drop 1 (h @ [c])" by (metis One_nat_def drop_0 drop_Suc)
  with True show ?thesis by (simp add: append_history_def Let_def)
next
  case False
  with that have "length h < 30" by simp
  then show ?thesis by (simp add: append_history_def Let_def)
qed

lemma append_history_length: "length h \<le> 30 \<Longrightarrow> length (append_history h c) \<le> 30"
  by (simp add: append_history_step)

lemma foldl_append_history:
  "length h \<le> 30 \<Longrightarrow>
   foldl append_history h cs = drop (length (h @ cs) - 30) (h @ cs)"
proof (induction cs arbitrary: h)
  case Nil
  then show ?case by simp
next
  case (Cons c cs)
  let ?h1 = "append_history h c"
  have len: "length ?h1 \<le> 30" using Cons.prems by (rule append_history_length)
  have "foldl append_history h (c # cs) = drop (length (?h1 @ cs) - 30) (?h1 @ cs)"
    using Cons.IH [OF len] by simp
  also have "\<dots> = drop (length (h @ c # cs) - 30) (h @ c # cs)"
  proof (cases "length h < 30")
    case True
    then have "?h1 = h @ [c]" by (simp add: append_history_def)
    then show ?thesis by simp
  next
    case False
    with Cons.prems have l: "length h = 30" by simp
    then have h1: "?h1 = drop 1 (h @ [c])" by (simp add: append_history_step)
    have "?h1 @ cs = drop 1 (h @ c # cs)" using l by (simp add: h1)
    then show ?thesis using l by (simp add: drop_Suc)
  qed
  finally show ?case .
qed

lemma history_of_update:
  "history_of (s\<lparr>track_history := AList.update k v (track_history s)\<rparr>) i =
     (if i = k then v else history_of s i)"
  by (simp add: history_of_def update_conv')

lemma pd_history_of:
  "history_of (fst (process_detection ppt s d)) i =
     (if track_id d = i then append_history (history_of s i) (centroid (box d))
      else history_of s i)"
  by (auto simp add: history_of_def pd_track_history update_conv')

lemma pds_history_of:
  "history_of (fst (process_detections ppt s ds)) i =
     foldl append_history (history_of s i) (sightings i ds)"
  by (induction ds arbitrary: s) (simp_all add: case_prod_beta sightings_def pd_history_of)

lemma pf_fst:
  "fst (process_frame ppt s r) =
     fst (process_detections ppt
       (s\<lparr>frame_count := frame_count s + 1, current_vehicles_in_frame := [],
          current_vehicles_in_roi := []\<rparr>) (frame_detections r))"
  by (simp add: process_frame_def frame_detections_def Let_def split: option.splits)

lemma pf_snd:
  "snd (process_frame ppt s r) =
     snd (process_detections ppt
       (s\<lparr>frame_count := frame_count s + 1, current_vehicles_in_frame := [],
          current_vehicles_in_roi := []\<rparr>) (frame_detections r))"
  by (simp add: process_frame_def frame_detections_def Let_def split: option.splits)

lemma pf_roi [simp]:
  "roi_points (fst (process_frame ppt s r)) = roi_points s"
  "roi_defined (fst (process_frame ppt s r)) = roi_defined s"
  by (simp_all add: pf_fst)

lemma in_roi_ids_cong:
  "roi_points s = roi_points t \<Longrightarrow> roi_defined s = roi_defined t \<Longrightarrow>
   in_roi_ids ppt s ds = in_roi_ids ppt t ds"
  by (simp add: in_roi_ids_def is_vehicle_in_roi_cong [of s t])

lemma pf_seen_ids:
  "seen_ids (fst (process_frame ppt s r)) =
     seen_ids s |\<union>| fset_of_list (in_roi_ids ppt s (frame_detections r))"
  by (simp add: pf_fst pds_seen_ids
      in_roi_ids_cong [of "s\<lparr>frame_count := a, current_vehicles_in_frame := b, current_vehicles_in_roi := c\<rparr>" s for a b c])

lemma pf_out_count:
  "count_list (map event_id (snd (process_frame ppt s r))) i =
     (if i |\<notin>| seen_ids s \<and> i \<in> set (in_roi_ids ppt s (frame_detections r)) then 1 else 0)"
  by (simp add: pf_snd pds_out_count
      in_roi_ids_cong [of "s\<lparr>frame_count := a, current_vehicles_in_frame := b, current_vehicles_in_roi := c\<rparr>" s for a b c])

lemma pf_sum_counts:
  "sum_counts (fst (process_frame ppt s r)) =
     sum_counts s + int (length (snd (process_frame ppt s r)))"
  by (simp add: pf_fst pf_snd pds_sum_counts) (simp add: sum_counts_def)

lemma pf_fcard:
  "fcard (seen_ids (fst (process_frame ppt s r))) =
     fcard (seen_ids s) + length (snd (process_frame ppt s r))"
  by (simp add: pf_fst pf_snd pds_fcard)

lemma pf_history_of:
  "history_of (fst (process_frame ppt s r)) i =
     foldl append_history (history_of s i) (sightings i (frame_detections r))"
  by (simp add: pf_fst pds_history_of) (simp add: history_of_def)

lemma pfs_roi [simp]:
  "roi_points (fst (process_frames ppt s rs)) = roi_points s"
  "roi_defined (fst (process_frames ppt s rs)) = roi_defined s"
  by (induction rs arbitrary: s) (simp_all add: case_prod_beta)

lemma in_roi_ids_append:
  "in_roi_ids ppt s (xs @ ys) = in_roi_ids ppt s xs @ in_roi_ids ppt s ys"
  by (simp add: in_roi_ids_def)

lemma sightings_append: "sightings i (xs @ ys) = sightings i xs @ sightings i ys"
  by (simp add: sightings_def)

lemma detections_of_Cons:
  "detections_of (r # rs) = frame_detections r @ detections_of rs"
  by (simp add: detections_of_def)

lemma pfs_seen_ids:
  "seen_ids (fst (process_frames ppt s rs)) =
     seen_ids s |\<union>| fset_of_list (in_roi_ids ppt s (detections_of rs))"
proof (induction rs arbitrary: s)
  case Nil
  then show ?case by (simp add: detections_of_def in_roi_ids_def)
next
  case (Cons r rs)
  have same: "in_roi_ids ppt (fst (process_frame ppt s r)) ds = in_roi_ids ppt s ds" for ds
    by (rule in_roi_ids_cong) simp_all
  show ?case
    by (simp add: case_prod_beta Cons.IH same pf_seen_ids detections_of_Cons
        in_roi_ids_append funion_assoc)
qed

lemma pfs_out_count:
  "count_list (map event_id (snd (process_frames ppt s rs))) i =
     (if i |\<notin>| seen_ids s \<and> i \<in> set (in_roi_ids ppt s (detections_of rs)) then 1 else 0)"
proof (induction rs arbitrary: s)
  case Nil
  then show ?case by (simp add: detections_of_def in_roi_ids_def)
next
  case (Cons r rs)
  let ?s1 = "fst (process_frame ppt s r)"
  have same: "in_roi_ids ppt ?s1 ds = in_roi_ids ppt s ds" for ds
    by (rule in_roi_ids_cong) simp_all
  have split: "count_list (map event_id (snd (process_frames ppt s (r # rs)))) i =
        count_list (map event_id (snd (process_frame ppt s r))) i +
        count_list (map event_id (snd (process_frames ppt ?s1 rs))) i"
    by (simp add: case_prod_beta)
  show ?case
    unfolding split Cons.IH pf_out_count same
    by (auto simp add: pf_seen_ids detections_of_Cons in_roi_ids_append fset_of_list_elem)
qed

lemma pfs_sum_counts:
  "sum_counts (fst (process_frames ppt s rs)) =
     sum_counts s + int (length (snd (process_frames ppt s rs)))"
  by (induction rs arbitrary: s) (simp_all add: case_prod_beta pf_sum_counts)

lemma pfs_fcard:
  "fcard (seen_ids (fst (process_frames ppt s rs))) =
     fcard (seen_ids s) + length (snd (process_frames ppt s rs))"
  by (induction rs arbitrary: s) (simp_all add: case_prod_beta pf_fcard)

lemma pfs_history_of:
  "history_of (fst (process_frames ppt s rs)) i =
     foldl append_history (history_of s i) (sightings i (detections_of rs))"
  by (induction rs arbitrary: s)
     (simp_all add: case_prod_beta pf_history_of detections_of_def sightings_append,
      simp add: sightings_def)

lemma in_roi_ids_mem:
  "i \<in> set (in_roi_ids ppt s ds) \<longleftrightarrow>
   (\<exists>d\<in>set ds. track_id d = i \<and> is_vehicle_in_roi ppt s (box d))"
  by (auto simp add: in_roi_ids_def)

subsection \<open>Auxiliary facts about reset, the main loop and the ROI methods\<close>

lemma reset_fields [simp]:
  "seen_ids (reset s) = {||}" "vehicle_counts (reset s) = []" "track_history (reset s) = []"
  "roi_points (reset s) = roi_points s" "roi_defined (reset s) = roi_defined s"
  "current_vehicles_in_frame (reset s) = current_vehicles_in_frame s"
  "current_vehicles_in_roi (reset s) = current_vehicles_in_roi s"
  "frame_count (reset s) = frame_count s" "drawing_roi (reset s) = drawing_roi s"
  by (simp_all add: reset_def)

lemma sum_counts_reset [simp]: "sum_counts (reset s) = 0"
  by (simp add: sum_counts_def)

lemma pf_sum_invariant:
  "sum_counts s = int (fcard (seen_ids s)) \<Longrightarrow>
   sum_counts (fst (process_frame ppt s r)) = int (fcard (seen_ids (fst (process_frame ppt s r))))"
  by (simp add: pf_sum_counts pf_fcard)

lemma run_loop_sum_invariant:
  "sum_counts s = int (fcard (seen_ids s)) \<Longrightarrow>
   sum_counts (fst (run_loop ppt s fs)) = int (fcard (seen_ids (fst (run_loop ppt s fs))))"
proof (induction fs arbitrary: s)
  case Nil
  then show ?case by simp
next
  case (Cons f fs)
  obtain r k where f: "f = (r, k)" by (cases f)
  let ?s1 = "fst (process_frame ppt s r)"
  have s1: "sum_counts ?s1 = int (fcard (seen_ids ?s1))"
    using Cons.prems by (rule pf_sum_invariant)
  have s1r: "sum_counts (reset ?s1) = int (fcard (seen_ids (reset ?s1)))" by simp
  show ?case
  proof (cases k)
    case KeyQ
    then show ?thesis using s1 by (simp add: f case_prod_beta)
  next
    case KeyR
    then show ?thesis using Cons.IH [OF s1r] by (simp add: f case_prod_beta)
  next
    case KeyNone
    then show ?thesis using Cons.IH [OF s1] by (simp add: f case_prod_beta)
  qed
qed

lemma roi_loop_counts:
  "roi_loop s es = Some (s', m) \<Longrightarrow>
   seen_ids s' = seen_ids s \<and> vehicle_counts s' = vehicle_counts s"
  by (induction s es rule: roi_loop.induct) (auto split: if_splits)

lemma run_sum_invariant:
  assumes "run ppt s opened ret roi_type es fs = Some (s', out)"
    and "sum_counts s = int (fcard (seen_ids s))"
  shows "sum_counts s' = int (fcard (seen_ids s'))"
proof (cases "opened \<and> ret")
  case False
  with assms show ?thesis by (auto simp add: run_def split: if_splits)
next
  case True
  from assms(1) True obtain s1 s2 where
    s1: "(if roi_type = ''interactive'' then map_option fst (define_roi_interactive s es) else Some s) = Some s1"
    and s2: "s2 = (if \<not> roi_defined s1 then
                        (if roi_type = ''auto_rectangle'' then create_rectangular_roi s1 720 1280
                         else auto_define_roi s1 720 1280)
                      else s1)"
    and res: "run_loop ppt s2 fs = (s', out)"
    by (auto simp add: run_def Let_def split: option.splits)
  have "seen_ids s1 = seen_ids s \<and> vehicle_counts s1 = vehicle_counts s"
    using s1 roi_loop_counts [of "s\<lparr>roi_points := []\<rparr>" es]
    by (auto simp add: define_roi_interactive_def split: if_splits)
  then have "seen_ids s2 = seen_ids s \<and> vehicle_counts s2 = vehicle_counts s"
    by (simp add: s2 create_rectangular_roi_def auto_define_roi_def Let_def)
  then have "sum_counts s2 = int (fcard (seen_ids s2))"
    using assms(2) by (simp add: sum_counts_def)
  from run_loop_sum_invariant [OF this, of ppt fs] res show ?thesis by simp
qed

lemma history_of_reset [simp]: "history_of (reset s) i = []"
  by (simp add: history_of_def)

lemma history_of_init [simp]: "history_of init_state i = []"
  by (simp add: history_of_def init_state_def)

lemma pf_history_bound:
  "length (history_of s i) \<le> 30 \<Longrightarrow> length (history_of (fst (process_frame ppt s r)) i) \<le> 30"
  by (simp add: pf_history_of foldl_append_history)

lemma run_loop_history_bound:
  "length (history_of s i) \<le> 30 \<Longrightarrow> length (history_of (fst (run_loop ppt s fs)) i) \<le> 30"
proof (induction fs arbitrary: s)
  case Nil
  then show ?case by simp
next
  case (Cons f fs)
  obtain r k where f: "f = (r, k)" by (cases f)
  let ?s1 = "fst (process_frame ppt s r)"
  have s1: "length (history_of ?s1 i) \<le> 30"
    using Cons.prems by (rule pf_history_bound)
  have s1r: "length (history_of (reset ?s1) i) \<le> 30" by simp
  show ?case
  proof (cases k)
    case KeyQ
    then show ?thesis using s1 by (simp add: f case_prod_beta)
  next
    case KeyR
    then show ?thesis using Cons.IH [OF s1r] by (simp add: f case_prod_beta)
  next
    case KeyNone
    then show ?thesis using Cons.IH [OF s1] by (simp add: f case_prod_beta)
  qed
qed

lemma run_loop_no_key:
  "run_loop ppt s (map (\<lambda>r. (r, KeyNone)) rs) = process_frames ppt s rs"
  by (induction rs arbitrary: s) (simp_all add: case_prod_beta)

lemma pds_in_frame_keys:
  "fst ` set (current_vehicles_in_frame (fst (process_detections ppt s ds))) =
     fst ` set (current_vehicles_in_frame s) \<union> track_id ` set ds"
  by (induction ds arbitrary: s) (auto simp add: case_prod_beta pd_in_frame dom_update)

lemma pds_in_roi_keys:
  "fst ` set (current_vehicles_in_roi (fst (process_detections ppt s ds))) =
     fst ` set (current_vehicles_in_roi s) \<union> set (in_roi_ids ppt s ds)"
proof (induction ds arbitrary: s)
  case Nil
  then show ?case by (simp add: in_roi_ids_def)
next
  case (Cons d ds)
  have "fst ` set (current_vehicles_in_roi (fst (process_detections ppt s (d # ds)))) =
        fst ` set (current_vehicles_in_roi (fst (process_detection ppt s d))) \<union>
        set (in_roi_ids ppt s ds)"
    by (simp add: case_prod_beta Cons.IH in_roi_ids_pd)
  then show ?case
    by (auto simp add: pd_in_roi dom_update in_roi_ids_def)
qed

lemma pf_in_frame_keys:
  "fst ` set (current_vehicles_in_frame (fst (process_frame ppt s r))) =
     track_id ` set (frame_detections r)"
  by (simp add: pf_fst pds_in_frame_keys)

lemma pf_in_roi_keys:
  "fst ` set (current_vehicles_in_roi (fst (process_frame ppt s r))) =
     set (in_roi_ids ppt s (frame_detections r))"
  by (simp add: pf_fst pds_in_roi_keys
      in_roi_ids_cong [of "s\<lparr>frame_count := a, current_vehicles_in_frame := b, current_vehicles_in_roi := c\<rparr>" s for a b c])

lemma roi_loop_confirmed:
  "roi_loop s es = Some (s', Confirmed n) \<Longrightarrow>
   roi_defined s' \<and> length (roi_points s') = n \<and> 3 \<le> n"
  by (induction s es rule: roi_loop.induct) (auto split: if_splits)

lemma roi_loop_skipped:
  "roi_loop s es = Some (s', Skipped) \<Longrightarrow> roi_defined s' = roi_defined s"
  by (induction s es rule: roi_loop.induct) (auto split: if_splits)

lemma roi_loop_invariant:
  "roi_loop s es = Some (s', m) \<Longrightarrow> \<not> roi_defined s \<Longrightarrow> roi_invariant s'"
  by (cases m) (auto simp add: roi_invariant_def dest: roi_loop_confirmed roi_loop_skipped)

lemma run_loop_roi_both:
  "roi_points (fst (run_loop ppt s fs)) = roi_points s \<and>
   roi_defined (fst (run_loop ppt s fs)) = roi_defined s"
proof (induction fs arbitrary: s)
  case Nil
  then show ?case by simp
next
  case (Cons f fs)
  obtain r k where f: "f = (r, k)" by (cases f)
  show ?case by (cases k) (simp_all add: f case_prod_beta Cons.IH)
qed

lemma run_loop_roi [simp]:
  "roi_points (fst (run_loop ppt s fs)) = roi_points s"
  "roi_defined (fst (run_loop ppt s fs)) = roi_defined s"
  by (simp_all add: run_loop_roi_both)

lemma auto_define_roi_polygon:
  "roi_defined (auto_define_roi s h w) \<and> length (roi_points (auto_define_roi s h w)) = 4"
  by (simp add: auto_define_roi_def Let_def)

lemma create_rectangular_roi_polygon:
  "roi_defined (create_rectangular_roi s h w) \<and>
   length (roi_points (create_rectangular_roi s h w)) = 4"
  by (simp add: create_rectangular_roi_def Let_def)

lemma run_roi_defined:
  assumes "run ppt s True True roi_type es fs = Some (s', out)" and "\<not> roi_defined s"
  shows "roi_defined s' \<and> 3 \<le> length (roi_points s')"
proof -
  from assms(1) obtain s1 s2 where
    s1: "(if roi_type = ''interactive'' then map_option fst (define_roi_interactive s es) else Some s) = Some s1"
    and s2: "s2 = (if \<not> roi_defined s1 then
                        (if roi_type = ''auto_rectangle'' then create_rectangular_roi s1 720 1280
                         else auto_define_roi s1 720 1280)
                      else s1)"
    and res: "run_loop ppt s2 fs = (s', out)"
    by (auto simp add: run_def Let_def split: option.splits)
  have "roi_invariant s1"
  proof (cases "roi_type = ''interactive''")
    case True
    with s1 obtain m where "roi_loop (s\<lparr>roi_points := []\<rparr>) es = Some (s1, m)"
      by (auto simp add: define_roi_interactive_def)
    then show ?thesis using assms(2) by (auto dest: roi_loop_invariant)
  next
    case False
    with s1 assms(2) show ?thesis by (simp add: roi_invariant_def)
  qed
  then have "roi_defined s2 \<and> 3 \<le> length (roi_points s2)"
    using auto_define_roi_polygon [of s1 720 1280] create_rectangular_roi_polygon [of s1 720 1280]
    by (auto simp add: s2 roi_invariant_def)
  moreover have "roi_points s' = roi_points s2" "roi_defined s' = roi_defined s2"
    using run_loop_roi [of ppt s2 fs] res by simp_all
  ultimately show ?thesis by simp
qed

lemma points_inside_filter:
  "points_inside ppt s ps = length (filter (is_point_in_roi ppt s) ps)"
  by (induction ps) simp_all

lemma length_check_points: "length (check_points b) = 9"
  by (cases b) (simp add: check_points_def)

lemma threshold_nat: "real n \<ge> real (9::nat) * 0.3 \<longleftrightarrow> 3 \<le> n"
  by (simp add: field_simps) linarith

lemma square_accepts: "is_vehicle_in_roi square_test square_counter (40, 40, 60, 60)"
  by (simp add: is_vehicle_in_roi_def check_points_def is_point_in_roi_def init_state_def)

lemma square_rejects: "\<not> is_vehicle_in_roi square_test square_counter (200, 200, 220, 220)"
  by (simp add: is_vehicle_in_roi_def check_points_def is_point_in_roi_def init_state_def)

subsection \<open>Auxiliary facts about raw frames\<close>

lemma is_vehicle_in_roi_raw_cong:
  "roi_points s = roi_points t \<Longrightarrow> roi_defined s = roi_defined t \<Longrightarrow>
   is_vehicle_in_roi_raw ppt s b = is_vehicle_in_roi_raw ppt t b"
  by (simp add: is_vehicle_in_roi_raw_def points_inside_cong [of s t])

lemma pdr_roi [simp]:
  "roi_points (fst (process_detection_raw ppt s d)) = roi_points s"
  "roi_defined (fst (process_detection_raw ppt s d)) = roi_defined s"
  by (simp_all add: process_detection_raw_def Let_def split: prod.splits if_splits sum.splits)

lemma pdr_raised:
  "snd (snd (process_detection_raw ppt s d)) =
     (case centroid_raw (box d) of Inl e \<Rightarrow> Some e | Inr c \<Rightarrow> None)"
  by (simp add: process_detection_raw_def Let_def split: prod.splits if_splits sum.splits)

lemma pdr_seen_ids:
  "seen_ids (fst (process_detection_raw ppt s d)) =
     (if is_vehicle_in_roi_raw ppt s (box d) then finsert (track_id d) (seen_ids s)
      else seen_ids s)"
  by (auto simp add: process_detection_raw_def Let_def
        is_vehicle_in_roi_raw_cong [of "s\<lparr>current_vehicles_in_frame := x\<rparr>" s for x]
      split: prod.splits if_splits sum.splits)

lemma pdr_out:
  "fst (snd (process_detection_raw ppt s d)) =
     (if is_vehicle_in_roi_raw ppt s (box d) \<and> track_id d |\<notin>| seen_ids s
      then [(class_name_of (cls d), track_id d, Suc (fcard (seen_ids s)))] else [])"
  by (auto simp add: process_detection_raw_def Let_def fcard_finsert_disjoint
        is_vehicle_in_roi_raw_cong [of "s\<lparr>current_vehicles_in_frame := x\<rparr>" s for x]
      split: prod.splits if_splits sum.splits)

lemma pdr_vehicle_counts:
  "vehicle_counts (fst (process_detection_raw ppt s d)) =
     (if is_vehicle_in_roi_raw ppt s (box d) \<and> track_id d |\<notin>| seen_ids s
      then AList.update (class_name_of (cls d))
             ((case map_of (vehicle_counts s) (class_name_of (cls d)) of None \<Rightarrow> 0 | Some n \<Rightarrow> n) + 1)
             (vehicle_counts s)
      else vehicle_counts s)"
  by (auto simp add: process_detection_raw_def Let_def
        is_vehicle_in_roi_raw_cong [of "s\<lparr>current_vehicles_in_frame := x\<rparr>" s for x]
      split: prod.splits if_splits sum.splits)

lemma pdr_in_frame:
  "current_vehicles_in_frame (fst (process_detection_raw ppt s d)) =
     AList.update (track_id d)
       \<lparr>vclass = class_name_of (cls d), vbox = box d, vconfidence = conf d\<rparr>
       (current_vehicles_in_frame s)"
  by (auto simp add: process_detection_raw_def Let_def split: prod.splits if_splits sum.splits)

lemma pdr_in_roi:
  "current_vehicles_in_roi (fst (process_detection_raw ppt s d)) =
     (if is_vehicle_in_roi_raw ppt s (box d) then
        AList.update (track_id d)
          \<lparr>vclass = class_name_of (cls d), vbox = box d, vconfidence = conf d\<rparr>
          (current_vehicles_in_roi s)
      else current_vehicles_in_roi s)"
  by (auto simp add: process_detection_raw_def Let_def
        is_vehicle_in_roi_raw_cong [of "s\<lparr>current_vehicles_in_frame := x\<rparr>" s for x]
      split: prod.splits if_splits sum.splits)

lemma pdr_track_history:
  "track_history (fst (process_detection_raw ppt s d)) =
     (case centroid_raw (box d) of
        Inl e \<Rightarrow> track_history s
      | Inr c \<Rightarrow> AList.update (track_id d) (append_history (history_of s (track_id d)) c)
                  (track_history s))"
  by (auto simp add: process_detection_raw_def Let_def history_of_def
      split: prod.splits if_splits sum.splits)

lemma pdr_frame_count [simp]:
  "frame_count (fst (process_detection_raw ppt s d)) = frame_count s"
  "drawing_roi (fst (process_detection_raw ppt s d)) = drawing_roi s"
  by (simp_all add: process_detection_raw_def Let_def split: prod.splits if_splits sum.splits)

lemma int_raises_iff:
  "int_raises b \<longleftrightarrow> (\<exists>e. centroid_raw b = Inl e)"
  "\<not> int_raises b \<longleftrightarrow> (\<exists>c. centroid_raw b = Inr c)"
  by (cases "centroid_raw b"; simp add: int_raises_def)+

lemma pdsr_roi [simp]:
  "roi_points (fst (process_detections_raw ppt s ds)) = roi_points s"
  "roi_defined (fst (process_detections_raw ppt s ds)) = roi_defined s"
  by (induction ds arbitrary: s; simp add: case_prod_beta split: option.splits)+

lemma pdr_vote_same:
  "is_vehicle_in_roi_raw ppt (fst (process_detection_raw ppt s d)) b = is_vehicle_in_roi_raw ppt s b"
  by (rule is_vehicle_in_roi_raw_cong) simp_all

lemma pdsr_vote_same:
  "is_vehicle_in_roi_raw ppt (fst (process_detections_raw ppt s ds)) b =
   is_vehicle_in_roi_raw ppt s b"
  by (rule is_vehicle_in_roi_raw_cong) simp_all

lemma pdsr_raise_head:
  assumes "int_raises (box d)"
  shows "process_detections_raw ppt s (d # post) = process_detections_raw ppt s [d]"
proof -
  from assms obtain e where "centroid_raw (box d) = Inl e" using int_raises_iff(1) by blast
  then have "snd (snd (process_detection_raw ppt s d)) = Some e" by (simp add: pdr_raised)
  then show ?thesis by (cases "process_detection_raw ppt s d") auto
qed

lemma pdsr_raise_head_error:
  assumes "int_raises (box d)"
  shows "snd (snd (process_detections_raw ppt s (d # post))) = Some (projl (centroid_raw (box d)))"
proof -
  from assms obtain e where e: "centroid_raw (box d) = Inl e" using int_raises_iff(1) by blast
  then have "snd (snd (process_detection_raw ppt s d)) = Some e" by (simp add: pdr_raised)
  then show ?thesis using e by (cases "process_detection_raw ppt s d") auto
qed

lemma pdsr_no_raise:
  "\<forall>d\<in>set ds. \<not> int_raises (box d) \<Longrightarrow> snd (snd (process_detections_raw ppt s ds)) = None"
proof (induction ds arbitrary: s)
  case Nil
  then show ?case by simp
next
  case (Cons d ds)
  from Cons.prems have "\<not> int_raises (box d)" by simp
  then obtain c where "centroid_raw (box d) = Inr c" using int_raises_iff(2) by blast
  then have "snd (snd (process_detection_raw ppt s d)) = None" by (simp add: pdr_raised)
  then show ?case using Cons by (cases "process_detection_raw ppt s d") (auto simp add: case_prod_beta)
qed

lemma pdsr_append:
  assumes "\<forall>d\<in>set pre. \<not> int_raises (box d)"
  shows "process_detections_raw ppt s (pre @ rest) =
     (fst (process_detections_raw ppt (fst (process_detections_raw ppt s pre)) rest),
      fst (snd (process_detections_raw ppt s pre)) @
        fst (snd (process_detections_raw ppt (fst (process_detections_raw ppt s pre)) rest)),
      snd (snd (process_detections_raw ppt (fst (process_detections_raw ppt s pre)) rest)))"
  using assms
proof (induction pre arbitrary: s)
  case Nil
  then show ?case by simp
next
  case (Cons d pre)
  from Cons.prems have "\<not> int_raises (box d)" by simp
  then obtain c where "centroid_raw (box d) = Inr c" using int_raises_iff(2) by blast
  then have n: "snd (snd (process_detection_raw ppt s d)) = None" by (simp add: pdr_raised)
  obtain s1 out1 where pd: "process_detection_raw ppt s d = (s1, out1, None)"
    using n by (cases "process_detection_raw ppt s d") auto
  have ih: "process_detections_raw ppt s1 (pre @ rest) =
     (fst (process_detections_raw ppt (fst (process_detections_raw ppt s1 pre)) rest),
      fst (snd (process_detections_raw ppt s1 pre)) @
        fst (snd (process_detections_raw ppt (fst (process_detections_raw ppt s1 pre)) rest)),
      snd (snd (process_detections_raw ppt (fst (process_detections_raw ppt s1 pre)) rest)))"
    using Cons.IH [of s1] Cons.prems by simp
  show ?case by (simp add: pd ih case_prod_beta)
qed

lemma pdsr_in_frame_mono:
  "fst ` set (current_vehicles_in_frame s)
     \<subseteq> fst ` set (current_vehicles_in_frame (fst (process_detections_raw ppt s ds)))"
proof (induction ds arbitrary: s)
  case Nil
  then show ?case by simp
next
  case (Cons d ds)
  have step: "fst ` set (current_vehicles_in_frame s)
      \<subseteq> fst ` set (current_vehicles_in_frame (fst (process_detection_raw ppt s d)))"
    by (auto simp add: pdr_in_frame dom_update)
  show ?case
  proof (cases "snd (snd (process_detection_raw ppt s d))")
    case None
    then have "fst (process_detections_raw ppt s (d # ds)) =
        fst (process_detections_raw ppt (fst (process_detection_raw ppt s d)) ds)"
      by (cases "process_detection_raw ppt s d") (auto simp add: case_prod_beta)
    then show ?thesis using step Cons.IH [of "fst (process_detection_raw ppt s d)"] by auto
  next
    case (Some e)
    then have "fst (process_detections_raw ppt s (d # ds)) = fst (process_detection_raw ppt s d)"
      by (cases "process_detection_raw ppt s d") auto
    then show ?thesis using step by simp
  qed
qed

lemma pdsr_in_roi_mono:
  "fst ` set (current_vehicles_in_roi s)
     \<subseteq> fst ` set (current_vehicles_in_roi (fst (process_detections_raw ppt s ds)))"
proof (induction ds arbitrary: s)
  case Nil
  then show ?case by simp
next
  case (Cons d ds)
  have step: "fst ` set (current_vehicles_in_roi s)
      \<subseteq> fst ` set (current_vehicles_in_roi (fst (process_detection_raw ppt s d)))"
    by (auto simp add: pdr_in_roi dom_update)
  show ?case
  proof (cases "snd (snd (process_detection_raw ppt s d))")
    case None
    then have "fst (process_detections_raw ppt s (d # ds)) =
        fst (process_detections_raw ppt (fst (process_detection_raw ppt s d)) ds)"
      by (cases "process_detection_raw ppt s d") (auto simp add: case_prod_beta)
    then show ?thesis using step Cons.IH [of "fst (process_detection_raw ppt s d)"] by auto
  next
    case (Some e)
    then have "fst (process_detections_raw ppt s (d # ds)) = fst (process_detection_raw ppt s d)"
      by (cases "process_detection_raw ppt s d") auto
    then show ?thesis using step by simp
  qed
qed

lemma pdsr_seen_mono:
  "seen_ids s |\<subseteq>| seen_ids (fst (process_detections_raw ppt s ds))"
proof (induction ds arbitrary: s)
  case Nil
  then show ?case by simp
next
  case (Cons d ds)
  have step: "seen_ids s |\<subseteq>| seen_ids (fst (process_detection_raw ppt s d))"
    by (auto simp add: pdr_seen_ids)
  show ?case
  proof (cases "snd (snd (process_detection_raw ppt s d))")
    case None
    then have "fst (process_detections_raw ppt s (d # ds)) =
        fst (process_detections_raw ppt (fst (process_detection_raw ppt s d)) ds)"
      by (cases "process_detection_raw ppt s d") (auto simp add: case_prod_beta)
    then show ?thesis using step Cons.IH [of "fst (process_detection_raw ppt s d)"] by auto
  next
    case (Some e)
    then have "fst (process_detections_raw ppt s (d # ds)) = fst (process_detection_raw ppt s d)"
      by (cases "process_detection_raw ppt s d") auto
    then show ?thesis using step by simp
  qed
qed

lemma pdr_history_of:
  "history_of (fst (process_detection_raw ppt s d)) i =
     (case centroid_raw (box d) of
        Inl e \<Rightarrow> history_of s i
      | Inr c \<Rightarrow> if track_id d = i then append_history (history_of s i) c else history_of s i)"
  by (auto simp add: history_of_def pdr_track_history update_conv' split: sum.splits)

lemma pdsr_Cons_raise:
  assumes "int_raises (box d)"
  shows "process_detections_raw ppt s (d # ds) = process_detection_raw ppt s d"
proof -
  from assms obtain e where "centroid_raw (box d) = Inl e" using int_raises_iff(1) by blast
  then have "snd (snd (process_detection_raw ppt s d)) = Some e" by (simp add: pdr_raised)
  then show ?thesis by (cases "process_detection_raw ppt s d") auto
qed

lemma pdsr_Cons_ok:
  assumes "\<not> int_raises (box d)"
  shows "fst (process_detections_raw ppt s (d # ds)) =
         fst (process_detections_raw ppt (fst (process_detection_raw ppt s d)) ds)"
proof -
  from assms obtain c where "centroid_raw (box d) = Inr c" using int_raises_iff(2) by blast
  then have "snd (snd (process_detection_raw ppt s d)) = None" by (simp add: pdr_raised)
  then show ?thesis
    by (cases "process_detection_raw ppt s d") (auto simp add: case_prod_beta)
qed

lemma pdsr_in_frame_keys:
  "\<forall>d\<in>set ds. \<not> int_raises (box d) \<Longrightarrow>
   fst ` set (current_vehicles_in_frame (fst (process_detections_raw ppt s ds))) =
     fst ` set (current_vehicles_in_frame s) \<union> track_id ` set ds"
proof (induction ds arbitrary: s)
  case Nil
  then show ?case by simp
next
  case (Cons d ds)
  from Cons.prems have ok: "\<not> int_raises (box d)" by simp
  show ?case
    unfolding pdsr_Cons_ok [OF ok]
    using Cons by (auto simp add: pdr_in_frame dom_update)
qed

lemma pdsr_history_of:
  "\<forall>d\<in>set ds. \<not> int_raises (box d) \<Longrightarrow>
   history_of (fst (process_detections_raw ppt s ds)) i =
     foldl append_history (history_of s i) (raw_sightings i ds)"
proof (induction ds arbitrary: s)
  case Nil
  then show ?case by (simp add: raw_sightings_def)
next
  case (Cons d ds)
  from Cons.prems have ok: "\<not> int_raises (box d)" by simp
  then obtain c where c: "centroid_raw (box d) = Inr c" using int_raises_iff(2) by blast
  show ?case
    unfolding pdsr_Cons_ok [OF ok]
    using Cons by (simp add: pdr_history_of c raw_sightings_def)
qed

lemma pdsr_head_stored:
  "track_id d \<in> fst ` set (current_vehicles_in_frame (fst (process_detections_raw ppt s (d # post))))"
proof -
  have here: "track_id d \<in> fst ` set (current_vehicles_in_frame (fst (process_detection_raw ppt s d)))"
    by (simp add: pdr_in_frame dom_update)
  show ?thesis
  proof (cases "int_raises (box d)")
    case True
    show ?thesis using here unfolding pdsr_Cons_raise [OF True] by simp
  next
    case False
    show ?thesis
      unfolding pdsr_Cons_ok [OF False]
      using here pdsr_in_frame_mono [of "fst (process_detection_raw ppt s d)" ppt post]
      by auto
  qed
qed

lemma pdsr_head_counted:
  assumes "is_vehicle_in_roi_raw ppt s (box d)"
  shows "track_id d |\<in>| seen_ids (fst (process_detections_raw ppt s (d # post))) \<and>
         track_id d \<in> fst ` set (current_vehicles_in_roi (fst (process_detections_raw ppt s (d # post))))"
proof -
  have here: "track_id d |\<in>| seen_ids (fst (process_detection_raw ppt s d)) \<and>
      track_id d \<in> fst ` set (current_vehicles_in_roi (fst (process_detection_raw ppt s d)))"
    using assms by (simp add: pdr_seen_ids pdr_in_roi dom_update)
  show ?thesis
  proof (cases "int_raises (box d)")
    case True
    show ?thesis using here unfolding pdsr_Cons_raise [OF True] by simp
  next
    case False
    show ?thesis
      unfolding pdsr_Cons_ok [OF False]
      using here pdsr_in_roi_mono [of "fst (process_detection_raw ppt s d)" ppt post]
        pdsr_seen_mono [of "fst (process_detection_raw ppt s d)" ppt post]
      by auto
  qed
qed

lemma pfr_unfold:
  "process_frame_raw ppt draws s (Some ds) =
     (fst (process_detections_raw ppt
        (s\<lparr>frame_count := frame_count s + 1, current_vehicles_in_frame := [],
           current_vehicles_in_roi := []\<rparr>) ds),
      fst (snd (process_detections_raw ppt
        (s\<lparr>frame_count := frame_count s + 1, current_vehicles_in_frame := [],
           current_vehicles_in_roi := []\<rparr>) ds)),
      case snd (snd (process_detections_raw ppt
        (s\<lparr>frame_count := frame_count s + 1, current_vehicles_in_frame := [],
           current_vehicles_in_roi := []\<rparr>) ds)) of
        Some e \<Rightarrow> Some e
      | None \<Rightarrow>
          if draws (fst (process_detections_raw ppt
               (s\<lparr>frame_count := frame_count s + 1, current_vehicles_in_frame := [],
                  current_vehicles_in_roi := []\<rparr>) ds)) (Some ds)
          then None else Some DrawingError)"
  by (simp add: process_frame_raw_def Let_def split: prod.splits option.splits)

lemma fadd_finite:
  "(\<exists>c. fadd x y = Fin c) \<longleftrightarrow> (\<exists>a b. x = Fin a \<and> y = Fin b \<and> \<bar>a + b\<bar> < f32_overflow)"
  by (cases x; cases y) (auto simp add: abs_less_iff)

lemma fhalf_finite: "(\<exists>c. fhalf x = Fin c) \<longleftrightarrow> (\<exists>a. x = Fin a)"
  by (cases x) (simp_all del: f32.inject, blast)

lemma py_int_f32_ok: "(\<exists>n. py_int_f32 x = Inr n) \<longleftrightarrow> (\<exists>a. x = Fin a)"
  by (cases x) simp_all

lemma fadd_in_range: "\<bar>a + b\<bar> < f32_overflow \<Longrightarrow> fadd (Fin a) (Fin b) = Fin (a + b)"
  by (auto simp add: abs_less_iff)

lemma centroid_raw_finite: "in_range b \<Longrightarrow> centroid_raw (raw_box_of b) = Inr (centroid b)"
  by (cases b) (auto simp add: centroid_raw_def raw_box_of_def centroid_def in_range_def abs_less_iff)

lemma int_raises_range: "int_raises b \<longleftrightarrow> b \<notin> raw_box_of ` Collect in_range"
proof
  assume r: "int_raises b"
  show "b \<notin> raw_box_of ` Collect in_range"
  proof
    assume "b \<in> raw_box_of ` Collect in_range"
    then obtain b0 where "b = raw_box_of b0" "in_range b0" by auto
    with r show False by (simp add: int_raises_def centroid_raw_finite)
  qed
next
  assume n: "b \<notin> raw_box_of ` Collect in_range"
  obtain x1 y1 x2 y2 where b: "b = (x1, y1, x2, y2)" by (cases b)
  have "\<not> (\<exists>a1 b1 a2 b2. x1 = Fin a1 \<and> y1 = Fin b1 \<and> x2 = Fin a2 \<and> y2 = Fin b2 \<and>
            \<bar>a1 + a2\<bar> < f32_overflow \<and> \<bar>b1 + b2\<bar> < f32_overflow)"
  proof
    assume "\<exists>a1 b1 a2 b2. x1 = Fin a1 \<and> y1 = Fin b1 \<and> x2 = Fin a2 \<and> y2 = Fin b2 \<and>
            \<bar>a1 + a2\<bar> < f32_overflow \<and> \<bar>b1 + b2\<bar> < f32_overflow"
    then obtain a1 b1 a2 b2 where "b = raw_box_of (a1, b1, a2, b2)" "in_range (a1, b1, a2, b2)"
      by (auto simp add: b raw_box_of_def in_range_def)
    with n show False by blast
  qed
  then have "\<not> (\<exists>c. fhalf (fadd x1 x2) = Fin c) \<or> \<not> (\<exists>c. fhalf (fadd y1 y2) = Fin c)"
    unfolding fhalf_finite fadd_finite by blast
  then have "\<not> (\<exists>n. py_int_f32 (fhalf (fadd x1 x2)) = Inr n) \<or>
             \<not> (\<exists>n. py_int_f32 (fhalf (fadd y1 y2)) = Inr n)"
    unfolding py_int_f32_ok .
  then show "int_raises b"
    by (auto simp add: int_raises_def centroid_raw_def b split: sum.splits)
qed

lemma int_raises_not_finite:
  "x1 \<notin> range Fin \<or> y1 \<notin> range Fin \<or> x2 \<notin> range Fin \<or> y2 \<notin> range Fin \<Longrightarrow>
   int_raises (x1, y1, x2, y2)"
  unfolding int_raises_range by (auto simp add: raw_box_of_def)

lemma alist_update_map:
  "map (\<lambda>(k, v). (k, f v)) (AList.update k x al) =
   AList.update k (f x) (map (\<lambda>(k, v). (k, f v)) al)"
  by (induction al) auto

lemma raw_counter_of_fields [simp]:
  "track_history (raw_counter_of s) = track_history s"
  "seen_ids (raw_counter_of s) = seen_ids s"
  "vehicle_counts (raw_counter_of s) = vehicle_counts s"
  "current_vehicles_in_frame (raw_counter_of s) =
     map (\<lambda>(k, v). (k, raw_vehicle_of v)) (current_vehicles_in_frame s)"
  "current_vehicles_in_roi (raw_counter_of s) =
     map (\<lambda>(k, v). (k, raw_vehicle_of v)) (current_vehicles_in_roi s)"
  "roi_points (raw_counter_of s) = roi_points s"
  "roi_defined (raw_counter_of s) = roi_defined s"
  "drawing_roi (raw_counter_of s) = drawing_roi s"
  "frame_count (raw_counter_of s) = frame_count s"
  by (simp_all add: raw_counter_of_def)

lemma raw_detection_of_fields [simp]:
  "box (raw_detection_of d) = raw_box_of (box d)"
  "track_id (raw_detection_of d) = track_id d"
  "cls (raw_detection_of d) = cls d"
  "conf (raw_detection_of d) = conf d"
  by (simp_all add: raw_detection_of_def)

lemma history_of_raw [simp]: "history_of (raw_counter_of s) i = history_of s i"
  by (simp add: history_of_def)

lemma pd_drawing_roi [simp]: "drawing_roi (fst (process_detection ppt s d)) = drawing_roi s"
  by (simp add: process_detection_def Let_def split: prod.splits if_splits)

lemma check_points_raw_finite:
  "in_range b \<Longrightarrow>
   check_points_raw (raw_box_of b) = map (\<lambda>(x, y). (Fin x, Fin y)) (check_points b)"
  by (cases b)
     (simp add: check_points_raw_def check_points_def raw_box_of_def in_range_def fadd_in_range
        del: fadd.simps)

lemma points_inside_raw_finite:
  assumes "ppt_agree rppt ppt"
  shows "points_inside rppt (raw_counter_of s) (map (\<lambda>(x, y). (Fin x, Fin y)) ps) =
         points_inside ppt s ps"
  using assms by (induction ps) (auto simp add: is_point_in_roi_def ppt_agree_def)

lemma is_vehicle_in_roi_raw_finite:
  assumes "ppt_agree rppt ppt" and "in_range b"
  shows "is_vehicle_in_roi_raw rppt (raw_counter_of s) (raw_box_of b) = is_vehicle_in_roi ppt s b"
  by (simp add: is_vehicle_in_roi_raw_def is_vehicle_in_roi_def
      check_points_raw_finite [OF assms(2)] points_inside_raw_finite [OF assms(1)])

lemma process_detection_raw_finite:
  assumes "ppt_agree rppt ppt" and "in_range (box d)"
  shows "process_detection_raw rppt (raw_counter_of s) (raw_detection_of d) =
     (raw_counter_of (fst (process_detection ppt s d)), snd (process_detection ppt s d), None)"
proof -
  note vote = is_vehicle_in_roi_raw_finite [OF assms]
  note centre = centroid_raw_finite [OF assms(2)]
  have st: "fst (process_detection_raw rppt (raw_counter_of s) (raw_detection_of d)) =
      raw_counter_of (fst (process_detection ppt s d))"
    by (rule counter_of.equality)
       (simp_all add: pdr_seen_ids pd_seen_ids pdr_vehicle_counts pd_vehicle_counts
          pdr_in_frame pd_in_frame pdr_in_roi pd_in_roi pdr_track_history pd_track_history
          vote centre alist_update_map raw_vehicle_of_def)
  have out: "fst (snd (process_detection_raw rppt (raw_counter_of s) (raw_detection_of d))) =
      snd (process_detection ppt s d)"
    by (simp add: pdr_out pd_out vote)
  have r: "snd (snd (process_detection_raw rppt (raw_counter_of s) (raw_detection_of d))) = None"
    by (simp add: pdr_raised centre)
  show ?thesis using st out r by (metis prod.collapse)
qed

lemma process_detections_raw_finite:
  assumes "ppt_agree rppt ppt" and "\<forall>d\<in>set ds. in_range (box d)"
  shows "process_detections_raw rppt (raw_counter_of s) (map raw_detection_of ds) =
     (raw_counter_of (fst (process_detections ppt s ds)), snd (process_detections ppt s ds), None)"
  using assms(2)
  by (induction ds arbitrary: s)
     (simp_all add: process_detection_raw_finite [OF assms(1)] case_prod_beta)

lemma process_frame_raw_finite:
  assumes "ppt_agree rppt ppt" and "\<forall>d\<in>set (frame_detections r). in_range (box d)"
  shows "process_frame_raw rppt draws (raw_counter_of s) (map_option (map raw_detection_of) r) =
     (raw_counter_of (fst (process_frame ppt s r)), snd (process_frame ppt s r),
      if draws (raw_counter_of (fst (process_frame ppt s r))) (map_option (map raw_detection_of) r)
      then None else Some DrawingError)"
proof -
  let ?s1 = "s\<lparr>frame_count := frame_count s + 1, current_vehicles_in_frame := [],
           current_vehicles_in_roi := []\<rparr>"
  have clr: "raw_counter_of s\<lparr>frame_count := frame_count s + 1,
        current_vehicles_in_frame := [], current_vehicles_in_roi := []\<rparr> = raw_counter_of ?s1"
    by (simp add: raw_counter_of_def)
  show ?thesis
  proof (cases r)
    case None
    then show ?thesis
      by (simp add: process_frame_raw_def process_frame_def Let_def clr)
  next
    case (Some ds)
    with assms(2) have "\<forall>d\<in>set ds. in_range (box d)" by (simp add: frame_detections_def)
    with Some show ?thesis
      by (simp add: process_frame_raw_def process_frame_def Let_def clr
          process_detections_raw_finite [OF assms(1)])
  qed
qed

subsection \<open>The examples evaluated\<close>

lemmas eval_defs =
  process_frame_def process_detection_def is_vehicle_in_roi_def is_point_in_roi_def
  check_points_def class_name_of_def vehicle_classes_def history_of_def append_history_def
  centroid_def py_int_def init_state_def sum_counts_def reset_def Let_def

lemma sum_example_frame: "sum_counts (fst (process_frame square_test square_counter
        (Some [car7_inside, bus8_outside]))) = 1"
    by (simp add: eval_defs)

lemma example_run_returns: "run square_test init_state True True ''interactive'' square_clicks
        [(Some [car7_inside, bus8_inside], KeyNone)] \<noteq> None"
    by (simp add: run_def define_roi_interactive_def Let_def)

lemma sum_example_loop: "sum_counts (fst (run_loop square_test square_counter
        [(Some [car7_inside, bus8_inside], KeyNone), (Some [car7_outside], KeyR),
         (Some [bus8_inside], KeyNone)])) = 1"
    by (simp add: eval_defs)

lemma sum_example_run: "sum_counts (fst (the (run square_test init_state True True ''interactive'' square_clicks
        [(Some [car7_inside, bus8_inside], KeyNone)]))) = 2"
    by (simp add: run_def define_roi_interactive_def eval_defs)

lemma forty_sightings:
  "sightings 7 (detections_of
     (map (\<lambda>k. Some [\<lparr>box = (real k, real k, real k + 10, real k + 10), track_id = 7,
                       cls = 2, conf = 0.9\<rparr>]) ns)) =
   map (\<lambda>k. (int k + 5, int k + 5)) ns"
proof -
  have c: "centroid (real k, real k, real k + 10, real k + 10) = (int k + 5, int k + 5)" for k
  proof -
    have "(real k + (real k + 10)) / 2 = real_of_int (int k + 5)" by simp
    then show ?thesis by (simp only: centroid_def py_int_def split floor_of_int) simp
  qed
  show ?thesis
    by (induction ns) (simp_all add: detections_of_def frame_detections_def sightings_def c)
qed

lemmas eval_raw_defs =
  process_frame_raw_def process_detection_raw_def is_vehicle_in_roi_raw_def is_point_in_roi_def
  check_points_raw_def centroid_raw_def int_raises_def raw_counter_of_def raw_detection_of_def
  raw_box_of_def raw_vehicle_of_def class_name_of_def vehicle_classes_def history_of_def
  append_history_def py_int_def init_state_def f32_overflow_def Let_def

lemma raw_example_aborted:
  "process_frame_raw raw_square_test (\<lambda>s r. True) raw_square_counter
     (Some [raw_detection_of car7_inside, car9_infinite, raw_detection_of bus8_inside]) =
   (raw_square_counter
      \<lparr>frame_count := 1,
       current_vehicles_in_frame :=
         [(7, \<lparr>vclass = ''car'', vbox = (Fin 40, Fin 40, Fin 60, Fin 60), vconfidence = 0.9\<rparr>),
          (9, \<lparr>vclass = ''car'', vbox = (PosInf, Fin 60, Fin 40, Fin 40), vconfidence = 0.9\<rparr>)],
       current_vehicles_in_roi :=
         [(7, \<lparr>vclass = ''car'', vbox = (Fin 40, Fin 40, Fin 60, Fin 60), vconfidence = 0.9\<rparr>),
          (9, \<lparr>vclass = ''car'', vbox = (PosInf, Fin 60, Fin 40, Fin 40), vconfidence = 0.9\<rparr>)],
       seen_ids := {|9, 7|},
       vehicle_counts := [(''car'', 2)],
       track_history := [(7, [(50, 50)])]\<rparr>,
    [(''car'', 7, 1), (''car'', 9, 2)],
    Some OverflowError)"
  by (simp add: eval_raw_defs fcard_finsert_if)

lemma raw_example_returned:
  "process_frame_raw raw_square_test (\<lambda>s r. True) raw_square_counter
     (Some [raw_detection_of car7_inside, raw_detection_of car9_inverted,
            raw_detection_of bus8_inside]) =
   (raw_square_counter
      \<lparr>frame_count := 1,
       current_vehicles_in_frame :=
         [(7, \<lparr>vclass = ''car'', vbox = (Fin 40, Fin 40, Fin 60, Fin 60), vconfidence = 0.9\<rparr>),
          (9, \<lparr>vclass = ''car'', vbox = (Fin 60, Fin 60, Fin 40, Fin 40), vconfidence = 0.9\<rparr>),
          (8, \<lparr>vclass = ''bus'', vbox = (Fin 10, Fin 10, Fin 30, Fin 30), vconfidence = 0.8\<rparr>)],
       current_vehicles_in_roi :=
         [(7, \<lparr>vclass = ''car'', vbox = (Fin 40, Fin 40, Fin 60, Fin 60), vconfidence = 0.9\<rparr>),
          (9, \<lparr>vclass = ''car'', vbox = (Fin 60, Fin 60, Fin 40, Fin 40), vconfidence = 0.9\<rparr>),
          (8, \<lparr>vclass = ''bus'', vbox = (Fin 10, Fin 10, Fin 30, Fin 30), vconfidence = 0.8\<rparr>)],
       seen_ids := {|8, 9, 7|},
       vehicle_counts := [(''car'', 2), (''bus'', 1)],
       track_history := [(7, [(50, 50)]), (9, [(50, 50)]), (8, [(20, 20)])]\<rparr>,
    [(''car'', 7, 1), (''car'', 9, 2), (''bus'', 8, 3)],
    None)"
  by (simp add: eval_raw_defs fcard_finsert_if)

lemma raw_example_overflow:
  "centroid_raw (Fin (3 * 10 ^ 38), Fin 60, Fin (2 * 10 ^ 38), Fin 40) = Inl OverflowError"
  "centroid_raw (Fin 60, NaN, Fin 40, Fin 40) = Inl ValueError"
  by (simp_all add: centroid_raw_def f32_overflow_def)

lemma raw_example_boxes:
  "\<not> int_raises (box (raw_detection_of car7_inside))"
  "\<not> int_raises (box (raw_detection_of car9_inverted))"
  "\<not> int_raises (box (raw_detection_of bus8_inside))"
  "int_raises (box car9_infinite)"
  "projl (centroid_raw (box car9_infinite)) = OverflowError"
  "is_vehicle_in_roi_raw raw_square_test raw_square_counter (box car9_infinite)"
  by (simp_all add: eval_raw_defs)

subsection \<open>Fail-open default\<close>

text \<open>
  Claim C7. When no ROI is defined (\<open>roi_defined\<close> is false), \<open>is_vehicle_in_roi\<close> is true
  of every bounding box and \<open>is_point_in_roi\<close> is true of every point, whatever the
  polygon test would answer.
\<close>
theorem fail_open_default:
  assumes "\<not> roi_defined s"
  shows "is_vehicle_in_roi ppt s b \<and> is_point_in_roi ppt s pt"
  using assms by (simp add: is_vehicle_in_roi_def is_point_in_roi_def)

theorem fail_open_default_witness:
  "\<not> roi_defined init_state
   \<and> is_vehicle_in_roi (\<lambda>poly pt md. - 1) init_state (200, 200, 220, 220)
   \<and> is_point_in_roi (\<lambda>poly pt md. - 1) init_state (210 :: real, 210 :: real)"
proof -
  have h: "\<not> roi_defined init_state" by (simp add: init_state_def)
  show ?thesis
    using h fail_open_default [OF h, of "\<lambda>poly pt md. - 1" "(200, 200, 220, 220)" "(210, 210)"]
    by simp
qed

subsection \<open>At-most-once counting\<close>

text \<open>
  Claim C1. Over any sequence of processed frames with no reset in between, the count
  event of an identity is emitted exactly once when the identity was not yet in
  \<open>seen_ids\<close> and at least one of its detections is classified in-ROI, and never
  otherwise, however many frames show it in the ROI; the identity is in \<open>seen_ids\<close>
  afterwards iff it was there before or was classified in-ROI on some frame. Every count
  event adds one to the sum of the per-class counts and one to the size of \<open>seen_ids\<close>.
  At the start of a session (after construction or a reset) \<open>seen_ids\<close> is empty, so
  an identity is counted once iff it is in-ROI on at least one frame.
\<close>
theorem counted_exactly_once:
  "count_list (map event_id (snd (process_frames ppt s rs))) i =
     (if i |\<notin>| seen_ids s \<and>
         (\<exists>d\<in>set (detections_of rs). track_id d = i \<and> is_vehicle_in_roi ppt s (box d))
      then 1 else 0)
   \<and> (i |\<in>| seen_ids (fst (process_frames ppt s rs)) \<longleftrightarrow>
        i |\<in>| seen_ids s \<or>
        (\<exists>d\<in>set (detections_of rs). track_id d = i \<and> is_vehicle_in_roi ppt s (box d)))
   \<and> sum_counts (fst (process_frames ppt s rs)) =
        sum_counts s + int (length (snd (process_frames ppt s rs)))
   \<and> fcard (seen_ids (fst (process_frames ppt s rs))) =
        fcard (seen_ids s) + length (snd (process_frames ppt s rs))"
proof -
  have "count_list (map event_id (snd (process_frames ppt s rs))) i =
     (if i |\<notin>| seen_ids s \<and>
         (\<exists>d\<in>set (detections_of rs). track_id d = i \<and> is_vehicle_in_roi ppt s (box d))
      then 1 else 0)"
    by (simp only: pfs_out_count in_roi_ids_mem)
  moreover have "i |\<in>| seen_ids (fst (process_frames ppt s rs)) \<longleftrightarrow>
        i |\<in>| seen_ids s \<or>
        (\<exists>d\<in>set (detections_of rs). track_id d = i \<and> is_vehicle_in_roi ppt s (box d))"
    by (simp add: pfs_seen_ids fset_of_list_elem in_roi_ids_mem)
  ultimately show ?thesis
    using pfs_sum_counts [of ppt s rs] pfs_fcard [of ppt s rs] by blast
qed

theorem counted_exactly_once_witness:
  "count_list (map event_id (snd (process_frames square_test square_counter
      [Some [car7_inside, bus8_outside], Some [car7_outside], Some [car7_inside]]))) 7 = 1
   \<and> 7 |\<in>| seen_ids (fst (process_frames square_test square_counter
      [Some [car7_inside, bus8_outside], Some [car7_outside], Some [car7_inside]]))
   \<and> count_list (map event_id (snd (process_frames square_test square_counter
      [Some [car7_inside, bus8_outside], Some [car7_outside], Some [car7_inside]]))) 8 = 0
   \<and> 8 |\<notin>| seen_ids (fst (process_frames square_test square_counter
      [Some [car7_inside, bus8_outside], Some [car7_outside], Some [car7_inside]]))
   \<and> snd (process_frames square_test square_counter
      [Some [car7_inside, bus8_outside], Some [car7_outside], Some [car7_inside]]) =
      [(''car'', 7, 1)]"
proof -
  let ?rs = "[Some [car7_inside, bus8_outside], Some [car7_outside], Some [car7_inside]]"
  have empty: "seen_ids square_counter = {||}" by (simp add: init_state_def)
  have ds: "detections_of ?rs = [car7_inside, bus8_outside, car7_outside, car7_inside]"
    by (simp add: detections_of_def frame_detections_def)
  have out: "snd (process_frames square_test square_counter ?rs) = [(''car'', 7, 1)]"
    by (simp add: eval_defs fcard_finsert_if)
  show ?thesis
    using counted_exactly_once [of square_test square_counter ?rs 7]
      counted_exactly_once [of square_test square_counter ?rs 8]
    unfolding ds empty out
    by (simp add: square_accepts square_rejects event_id_def)
qed

subsection \<open>The vote of the nine sample points\<close>

text \<open>
  Claim C2. For a confirmed polygon (\<open>roi_defined\<close> with at least 3 vertices) and any
  bounding box, \<open>is_vehicle_in_roi\<close> samples 9 points, the centre, the 4 corners and the
  4 edge midpoints, and is true iff at least 3 of them are inside or on the boundary
  (\<^verbatim>\<open>pointPolygonTest\<close> not negative); so a box with exactly 3 such points is in-ROI and
  a box with exactly 2 is not.
\<close>
theorem vehicle_in_roi_threshold:
  assumes "roi_defined s" and "3 \<le> length (roi_points s)"
  shows "check_points (x1, y1, x2, y2) =
           [((x1 + x2) / 2, (y1 + y2) / 2),
            (x1, y1), (x2, y1), (x1, y2), (x2, y2),
            ((x1 + x2) / 2, y1), ((x1 + x2) / 2, y2),
            (x1, (y1 + y2) / 2), (x2, (y1 + y2) / 2)]
         \<and> length (check_points b) = 9
         \<and> (is_vehicle_in_roi ppt s b \<longleftrightarrow>
              3 \<le> length (filter (\<lambda>p. 0 \<le> ppt (roi_points s) p False) (check_points b)))
         \<and> (length (filter (\<lambda>p. 0 \<le> ppt (roi_points s) p False) (check_points b)) = 3
              \<longrightarrow> is_vehicle_in_roi ppt s b)
         \<and> (length (filter (\<lambda>p. 0 \<le> ppt (roi_points s) p False) (check_points b)) = 2
              \<longrightarrow> \<not> is_vehicle_in_roi ppt s b)"
proof -
  have pt: "is_point_in_roi ppt s = (\<lambda>p. 0 \<le> ppt (roi_points s) p False)"
    using assms by (auto simp add: is_point_in_roi_def fun_eq_iff)
  have "is_vehicle_in_roi ppt s b \<longleftrightarrow>
      real (length (check_points b)) * 0.3 \<le> real (points_inside ppt s (check_points b))"
    using assms(1) by (simp only: is_vehicle_in_roi_def not_True_eq_False if_False)
  also have "\<dots> \<longleftrightarrow> 3 \<le> points_inside ppt s (check_points b)"
    by (simp only: length_check_points threshold_nat)
  finally have iff: "is_vehicle_in_roi ppt s b \<longleftrightarrow>
      3 \<le> length (filter (\<lambda>p. 0 \<le> ppt (roi_points s) p False) (check_points b))"
    by (simp only: points_inside_filter pt)
  have pts: "check_points (x1, y1, x2, y2) =
           [((x1 + x2) / 2, (y1 + y2) / 2),
            (x1, y1), (x2, y1), (x1, y2), (x2, y2),
            ((x1 + x2) / 2, y1), ((x1 + x2) / 2, y2),
            (x1, (y1 + y2) / 2), (x2, (y1 + y2) / 2)]"
    by (simp add: check_points_def)
  show ?thesis
    using iff pts length_check_points [of b] by simp
qed

theorem vehicle_in_roi_threshold_witness:
  "roi_defined square_counter \<and> 3 \<le> length (roi_points square_counter)
   \<and> length (filter (\<lambda>p. 0 \<le> square_test (roi_points square_counter) p False)
        (check_points (80, 50, 130, 70))) = 3
   \<and> is_vehicle_in_roi square_test square_counter (80, 50, 130, 70)
   \<and> length (filter (\<lambda>p. 0 \<le> square_test (roi_points square_counter) p False)
        (check_points (90, 90, 110, 130))) = 2
   \<and> \<not> is_vehicle_in_roi square_test square_counter (90, 90, 110, 130)"
proof -
  have d: "roi_defined square_counter" by (simp add: init_state_def)
  have l: "3 \<le> length (roi_points square_counter)" by (simp add: init_state_def)
  have three: "length (filter (\<lambda>p. 0 \<le> square_test (roi_points square_counter) p False)
        (check_points (80, 50, 130, 70))) = 3"
    by (simp add: check_points_def)
  have two: "length (filter (\<lambda>p. 0 \<le> square_test (roi_points square_counter) p False)
        (check_points (90, 90, 110, 130))) = 2"
    by (simp add: check_points_def)
  show ?thesis
    using d l three two
      vehicle_in_roi_threshold [OF d l, of _ _ _ _ "(80, 50, 130, 70)" square_test]
      vehicle_in_roi_threshold [OF d l, of _ _ _ _ "(90, 90, 110, 130)" square_test]
    by simp
qed

subsection \<open>The sum of the per-class counts\<close>

text \<open>
  Claim C3. The sum of the per-class counts equals the size of \<open>seen_ids\<close> after
  construction, and this is kept by every processed frame, established by every reset,
  kept by the main loop as a whole, and so holds at the end of every \<^verbatim>\<open>run\<close> of a new
  counter.
\<close>
theorem sum_invariant:
  "sum_counts init_state = int (fcard (seen_ids init_state))
   \<and> (sum_counts s = int (fcard (seen_ids s)) \<longrightarrow>
        sum_counts (fst (process_frame ppt s r)) =
          int (fcard (seen_ids (fst (process_frame ppt s r)))))
   \<and> sum_counts (reset s) = int (fcard (seen_ids (reset s)))
   \<and> (sum_counts s = int (fcard (seen_ids s)) \<longrightarrow>
        sum_counts (fst (run_loop ppt s fs)) = int (fcard (seen_ids (fst (run_loop ppt s fs)))))
   \<and> (run ppt init_state opened ret roi_type es fs = Some (s', out) \<longrightarrow>
        sum_counts s' = int (fcard (seen_ids s')))"
proof -
  have init: "sum_counts init_state = int (fcard (seen_ids init_state))"
    by (simp add: sum_counts_def init_state_def)
  have "sum_counts (reset s) = int (fcard (seen_ids (reset s)))" by simp
  with init show ?thesis
    using pf_sum_invariant [of s ppt r] run_loop_sum_invariant [of s ppt fs]
      run_sum_invariant [of ppt init_state opened ret roi_type es fs s' out]
    by blast
qed

theorem sum_invariant_witness:
  "sum_counts square_counter = int (fcard (seen_ids square_counter))
   \<and> sum_counts (fst (process_frame square_test square_counter (Some [car7_inside, bus8_outside]))) = 1
   \<and> fcard (seen_ids (fst (process_frame square_test square_counter
        (Some [car7_inside, bus8_outside])))) = 1
   \<and> sum_counts (fst (run_loop square_test square_counter
        [(Some [car7_inside, bus8_inside], KeyNone), (Some [car7_outside], KeyR),
         (Some [bus8_inside], KeyNone)])) = 1
   \<and> fcard (seen_ids (fst (run_loop square_test square_counter
        [(Some [car7_inside, bus8_inside], KeyNone), (Some [car7_outside], KeyR),
         (Some [bus8_inside], KeyNone)]))) = 1
   \<and> run square_test init_state True True ''interactive'' square_clicks
        [(Some [car7_inside, bus8_inside], KeyNone)] \<noteq> None
   \<and> sum_counts (fst (the (run square_test init_state True True ''interactive'' square_clicks
        [(Some [car7_inside, bus8_inside], KeyNone)]))) = 2
   \<and> fcard (seen_ids (fst (the (run square_test init_state True True ''interactive''
        square_clicks [(Some [car7_inside, bus8_inside], KeyNone)])))) = 2"
proof -
  let ?r = "Some [car7_inside, bus8_outside]"
  let ?fs = "[(Some [car7_inside, bus8_inside], KeyNone), (Some [car7_outside], KeyR),
         (Some [bus8_inside], KeyNone)]"
  let ?gs = "[(Some [car7_inside, bus8_inside], KeyNone)]"
  let ?run = "run square_test init_state True True ''interactive'' square_clicks ?gs"
  let ?s1 = "fst (process_frame square_test square_counter ?r)"
  let ?s2 = "fst (run_loop square_test square_counter ?fs)"
  have h: "sum_counts square_counter = int (fcard (seen_ids square_counter))"
    by (simp add: sum_counts_def init_state_def)
  from example_run_returns obtain s' out where run: "?run = Some (s', out)"
    by (cases ?run) auto
  then have s': "fst (the ?run) = s'" by (simp only: option.sel fst_conv)
  note inv = sum_invariant [where s = square_counter and ppt = square_test and r = ?r
      and fs = ?gs and opened = True and ret = True and roi_type = "''interactive''"
      and es = square_clicks and s' = s' and out = out]
  note inv2 = sum_invariant [where s = square_counter and ppt = square_test and fs = ?fs]
  have a: "sum_counts ?s1 = int (fcard (seen_ids ?s1))"
    using inv [THEN conjunct2, THEN conjunct1] h by (rule mp)
  have b: "sum_counts ?s2 = int (fcard (seen_ids ?s2))"
    using inv2 [THEN conjunct2, THEN conjunct2, THEN conjunct2, THEN conjunct1] h by (rule mp)
  have c: "sum_counts s' = int (fcard (seen_ids s'))"
    using inv [THEN conjunct2, THEN conjunct2, THEN conjunct2, THEN conjunct2] run by (rule mp)
  have a': "fcard (seen_ids ?s1) = 1" using a unfolding sum_example_frame by linarith
  have b': "fcard (seen_ids ?s2) = 1" using b unfolding sum_example_loop by linarith
  have c': "fcard (seen_ids (fst (the ?run))) = 2" using c sum_example_run unfolding s' by linarith
  show ?thesis
    using h sum_example_frame a' sum_example_loop b' example_run_returns sum_example_run c' by (intro conjI)
qed

subsection \<open>The bounded trajectory\<close>

text \<open>
  Claim C4. A trajectory of at most 30 points (an empty one after construction or reset)
  holds, after any sequence of processed frames, the last 30 points of the old
  trajectory followed by the centroids of the identity's sightings, oldest first; it
  never exceeds 30 points after a sighting is recorded, nor at the end of the main loop;
  and 40 sightings of an identity
  that had no trajectory leave exactly 30 points, the centroids of the 30 most recent
  sightings in the order they were seen.
\<close>
theorem history_bound:
  assumes "length (history_of s i) \<le> 30"
  shows "history_of (fst (process_frames ppt s rs)) i =
           drop (length (history_of s i @ sightings i (detections_of rs)) - 30)
             (history_of s i @ sightings i (detections_of rs))
         \<and> length (history_of (fst (process_frames ppt s rs)) i) \<le> 30
         \<and> length (history_of (fst (process_detection ppt s d)) i) \<le> 30
         \<and> (history_of s i = [] \<and> length (sightings i (detections_of rs)) = 40 \<longrightarrow>
              length (history_of (fst (process_frames ppt s rs)) i) = 30 \<and>
              history_of (fst (process_frames ppt s rs)) i =
                drop 10 (sightings i (detections_of rs)))
         \<and> history_of init_state i = [] \<and> history_of (reset s) i = []
         \<and> length (history_of (fst (run_loop ppt s fs)) i) \<le> 30"
proof -
  let ?all = "history_of s i @ sightings i (detections_of rs)"
  have eq: "history_of (fst (process_frames ppt s rs)) i = drop (length ?all - 30) ?all"
    using assms by (simp only: pfs_history_of foldl_append_history)
  have len: "length (history_of (fst (process_frames ppt s rs)) i) \<le> 30"
    unfolding eq by simp
  have step: "length (history_of (fst (process_detection ppt s d)) i) \<le> 30"
    using assms by (simp add: pd_history_of append_history_length)
  have forty: "length (history_of (fst (process_frames ppt s rs)) i) = 30 \<and>
      history_of (fst (process_frames ppt s rs)) i = drop 10 (sightings i (detections_of rs))"
    if "history_of s i = []" "length (sightings i (detections_of rs)) = 40"
    unfolding eq using that by simp
  show ?thesis
    using eq len step forty run_loop_history_bound [OF assms, of ppt fs] by simp
qed

theorem history_bound_witness:
  "length (history_of square_counter 7) \<le> 30
   \<and> length (sightings 7 (detections_of forty_frames)) = 40
   \<and> length (history_of (fst (process_frames square_test square_counter forty_frames)) 7) = 30
   \<and> history_of (fst (process_frames square_test square_counter forty_frames)) 7 =
       map (\<lambda>k. (int k + 5, int k + 5)) [10..<40]"
proof -
  have h0: "history_of square_counter 7 = []"
    by (simp add: history_of_def init_state_def)
  then have le: "length (history_of square_counter 7) \<le> 30" by simp
  have sg: "sightings 7 (detections_of forty_frames) = map (\<lambda>k. (int k + 5, int k + 5)) [0..<40]"
    by (rule forty_sightings)
  then have len: "length (sightings 7 (detections_of forty_frames)) = 40" by simp
  have dr: "drop 10 (sightings 7 (detections_of forty_frames)) =
      map (\<lambda>k. (int k + 5, int k + 5)) [10..<40]"
    unfolding sg by (simp add: drop_map)
  note hb = history_bound [OF le, where ppt = square_test and rs = forty_frames]
  have "length (history_of (fst (process_frames square_test square_counter forty_frames)) 7) = 30 \<and>
      history_of (fst (process_frames square_test square_counter forty_frames)) 7 =
        drop 10 (sightings 7 (detections_of forty_frames))"
    using hb [THEN conjunct2, THEN conjunct2, THEN conjunct2, THEN conjunct1] h0 len
    by blast
  with le len dr show ?thesis by simp
qed

subsection \<open>Reset\<close>

text \<open>
  Claim C5, as amended. From any state, reset empties \<open>seen_ids\<close>, the per-class counts
  (their sum is 0) and every trajectory, and leaves the ROI polygon (\<open>roi_points\<close> and
  \<open>roi_defined\<close>) unchanged. The two snapshots of the current frame are left as they
  are: they are emptied by the next call of \<open>process_frame\<close>.
\<close>
theorem reset_effect:
  "seen_ids (reset s) = {||}
   \<and> vehicle_counts (reset s) = [] \<and> sum_counts (reset s) = 0
   \<and> track_history (reset s) = [] \<and> history_of (reset s) i = []
   \<and> roi_points (reset s) = roi_points s \<and> roi_defined (reset s) = roi_defined s
   \<and> current_vehicles_in_frame (reset s) = current_vehicles_in_frame s
   \<and> current_vehicles_in_roi (reset s) = current_vehicles_in_roi s
   \<and> current_vehicles_in_frame (fst (process_frame ppt (reset s) None)) = []
   \<and> current_vehicles_in_roi (fst (process_frame ppt (reset s) None)) = []"
  by (simp add: process_frame_def)

text \<open>
  The claim as first stated, with both snapshots emptied by reset, fails: after a frame
  that shows the car inside the square, reset leaves the car in both snapshots.
\<close>
theorem reset_keeps_snapshots:
  "current_vehicles_in_frame
     (reset (fst (process_frame square_test square_counter (Some [car7_inside])))) =
     [(7, \<lparr>vclass = ''car'', vbox = (40, 40, 60, 60), vconfidence = 0.9\<rparr>)]
   \<and> current_vehicles_in_roi
     (reset (fst (process_frame square_test square_counter (Some [car7_inside])))) =
     [(7, \<lparr>vclass = ''car'', vbox = (40, 40, 60, 60), vconfidence = 0.9\<rparr>)]
   \<and> current_vehicles_in_frame
     (fst (run_loop square_test square_counter [(Some [car7_inside], KeyR)])) \<noteq> []
   \<and> current_vehicles_in_roi
     (fst (run_loop square_test square_counter [(Some [car7_inside], KeyR)])) \<noteq> []"
  by (simp add: eval_defs)

text \<open>
  Claim C6. Resetting twice gives exactly the state that resetting once gives, and
  the ROI polygon is unchanged by reset.
\<close>
theorem reset_idempotent:
  "reset (reset s) = reset s
   \<and> roi_points (reset s) = roi_points s \<and> roi_defined (reset s) = roi_defined s"
  by (simp add: reset_def)

subsection \<open>Detections with inverted boxes\<close>

text \<open>
  Claim C8, as amended. \<open>process_frame\<close> checks no detection and has no rejected-detection
  signal: a detection with inverted coordinates is handled like any other. Every
  detection that the loop reaches (line 271 has raised on none before it) is stored in
  the snapshot of all vehicles and, when the nine-point vote accepts its box, stored in
  the in-ROI snapshot and entered in \<open>seen_ids\<close>. A frame is cut short only by an
  exception. When a centre of the detection's box is not finite, \<^verbatim>\<open>int()\<close> at line 271
  raises after the detection has been stored and counted, the call ends with that
  exception, and the detections after it are not processed: the result is that of the
  frame cut after this detection. When line 271 raises on no detection of the frame,
  all of them are stored, each centroid is appended to its trajectory, and the call
  returns if \<^verbatim>\<open>draw_annotations\<close> returns and raises otherwise. Line 271 raises exactly on
  the boxes that have a coordinate that is not finite or a sum \<^verbatim>\<open>x1 + x2\<close> or
  \<^verbatim>\<open>y1 + y2\<close> that leaves the float32 range.
\<close>
theorem inverted_detection_handling:
  assumes "\<forall>d'\<in>set pre. \<not> int_raises (box d')"
  shows "track_id d \<in> fst ` set (current_vehicles_in_frame
           (fst (process_frame_raw rppt draws s (Some (pre @ d # post)))))
   \<and> (is_vehicle_in_roi_raw rppt s (box d) \<longrightarrow>
        track_id d |\<in>| seen_ids (fst (process_frame_raw rppt draws s (Some (pre @ d # post)))) \<and>
        track_id d \<in> fst ` set (current_vehicles_in_roi
           (fst (process_frame_raw rppt draws s (Some (pre @ d # post))))))
   \<and> (int_raises (box d) \<longrightarrow>
        process_frame_raw rppt draws s (Some (pre @ d # post)) =
          process_frame_raw rppt draws s (Some (pre @ [d])) \<and>
        snd (snd (process_frame_raw rppt draws s (Some (pre @ d # post)))) =
          Some (projl (centroid_raw (box d))))
   \<and> ((\<forall>d'\<in>set (d # post). \<not> int_raises (box d')) \<longrightarrow>
        snd (snd (process_frame_raw rppt draws s (Some (pre @ d # post)))) =
          (if draws (fst (process_frame_raw rppt draws s (Some (pre @ d # post))))
                (Some (pre @ d # post))
           then None else Some DrawingError) \<and>
        fst ` set (current_vehicles_in_frame
           (fst (process_frame_raw rppt draws s (Some (pre @ d # post))))) =
          track_id ` set (pre @ d # post) \<and>
        history_of (fst (process_frame_raw rppt draws s (Some (pre @ d # post)))) i =
          foldl append_history (history_of s i) (raw_sightings i (pre @ d # post)))
   \<and> (int_raises b \<longleftrightarrow> b \<notin> raw_box_of ` Collect in_range)"
proof -
  let ?s0 = "s\<lparr>frame_count := frame_count s + 1, current_vehicles_in_frame := [],
           current_vehicles_in_roi := []\<rparr>"
  let ?s1 = "fst (process_detections_raw rppt ?s0 pre)"
  let ?ds = "pre @ d # post"
  have app: "process_detections_raw rppt ?s0 (pre @ rest) =
     (fst (process_detections_raw rppt ?s1 rest),
      fst (snd (process_detections_raw rppt ?s0 pre)) @
        fst (snd (process_detections_raw rppt ?s1 rest)),
      snd (snd (process_detections_raw rppt ?s1 rest)))" for rest
    using assms by (rule pdsr_append)
  have st: "fst (process_frame_raw rppt draws s (Some ?ds)) =
      fst (process_detections_raw rppt ?s1 (d # post))"
    by (simp add: pfr_unfold app)
  have stored: "track_id d \<in> fst ` set (current_vehicles_in_frame
           (fst (process_frame_raw rppt draws s (Some ?ds))))"
    unfolding st by (rule pdsr_head_stored)
  have vote: "is_vehicle_in_roi_raw rppt ?s1 (box d) = is_vehicle_in_roi_raw rppt s (box d)"
    by (rule is_vehicle_in_roi_raw_cong) simp_all
  have counted: "track_id d |\<in>| seen_ids (fst (process_frame_raw rppt draws s (Some ?ds))) \<and>
        track_id d \<in> fst ` set (current_vehicles_in_roi
           (fst (process_frame_raw rppt draws s (Some ?ds))))"
    if "is_vehicle_in_roi_raw rppt s (box d)"
    unfolding st using that pdsr_head_counted [of rppt ?s1 d post] by (simp add: vote)
  have raised: "process_frame_raw rppt draws s (Some ?ds) =
          process_frame_raw rppt draws s (Some (pre @ [d])) \<and>
        snd (snd (process_frame_raw rppt draws s (Some ?ds))) =
          Some (projl (centroid_raw (box d)))"
    if r: "int_raises (box d)"
  proof -
    have e: "snd (snd (process_detection_raw rppt ?s1 d)) = Some (projl (centroid_raw (box d)))"
      using r by (auto simp add: pdr_raised int_raises_def split: sum.splits)
    have a: "process_detections_raw rppt ?s0 (pre @ d # post) =
        (fst (process_detection_raw rppt ?s1 d),
         fst (snd (process_detections_raw rppt ?s0 pre)) @ fst (snd (process_detection_raw rppt ?s1 d)),
         Some (projl (centroid_raw (box d))))"
      by (simp only: app pdsr_Cons_raise [OF r] e)
    have b: "process_detections_raw rppt ?s0 (pre @ [d]) =
        (fst (process_detection_raw rppt ?s1 d),
         fst (snd (process_detections_raw rppt ?s0 pre)) @ fst (snd (process_detection_raw rppt ?s1 d)),
         Some (projl (centroid_raw (box d))))"
      by (simp only: app pdsr_Cons_raise [OF r] e)
    show ?thesis
      by (simp add: pfr_unfold a b)
  qed
  have normal: "snd (snd (process_frame_raw rppt draws s (Some ?ds))) =
          (if draws (fst (process_frame_raw rppt draws s (Some ?ds))) (Some ?ds)
           then None else Some DrawingError) \<and>
        fst ` set (current_vehicles_in_frame (fst (process_frame_raw rppt draws s (Some ?ds)))) =
          track_id ` set ?ds \<and>
        history_of (fst (process_frame_raw rppt draws s (Some ?ds))) i =
          foldl append_history (history_of s i) (raw_sightings i ?ds)"
    if ok: "\<forall>d'\<in>set (d # post). \<not> int_raises (box d')"
  proof -
    from assms ok have all: "\<forall>d'\<in>set ?ds. \<not> int_raises (box d')" by auto
    have none: "snd (snd (process_detections_raw rppt ?s0 ?ds)) = None"
      using all by (rule pdsr_no_raise)
    have h0: "history_of ?s0 i = history_of s i" by (simp add: history_of_def)
    show ?thesis
      using pdsr_in_frame_keys [OF all, of rppt ?s0] pdsr_history_of [OF all, of rppt ?s0 i]
      by (simp add: pfr_unfold none h0)
  qed
  show ?thesis
    using stored counted raised normal int_raises_range [of b] by blast
qed

theorem inverted_detection_handling_witness:
  "\<not> int_raises (box (raw_detection_of car7_inside))
   \<and> int_raises (box car9_infinite)
   \<and> is_vehicle_in_roi_raw raw_square_test raw_square_counter (box car9_infinite)
   \<and> 9 \<in> fst ` set (current_vehicles_in_frame
        (fst (process_frame_raw raw_square_test (\<lambda>s r. True) raw_square_counter
           (Some [raw_detection_of car7_inside, car9_infinite, raw_detection_of bus8_inside]))))
   \<and> 9 |\<in>| seen_ids
        (fst (process_frame_raw raw_square_test (\<lambda>s r. True) raw_square_counter
           (Some [raw_detection_of car7_inside, car9_infinite, raw_detection_of bus8_inside])))
   \<and> snd (snd (process_frame_raw raw_square_test (\<lambda>s r. True) raw_square_counter
           (Some [raw_detection_of car7_inside, car9_infinite, raw_detection_of bus8_inside]))) =
       Some OverflowError
   \<and> process_frame_raw raw_square_test (\<lambda>s r. True) raw_square_counter
           (Some [raw_detection_of car7_inside, car9_infinite, raw_detection_of bus8_inside]) =
       process_frame_raw raw_square_test (\<lambda>s r. True) raw_square_counter
           (Some [raw_detection_of car7_inside, car9_infinite])
   \<and> \<not> int_raises (box (raw_detection_of car9_inverted))
   \<and> \<not> int_raises (box (raw_detection_of bus8_inside))
   \<and> snd (snd (process_frame_raw raw_square_test (\<lambda>s r. True) raw_square_counter
           (Some [raw_detection_of car7_inside, raw_detection_of car9_inverted,
                  raw_detection_of bus8_inside]))) = None
   \<and> fst ` set (current_vehicles_in_frame
        (fst (process_frame_raw raw_square_test (\<lambda>s r. True) raw_square_counter
           (Some [raw_detection_of car7_inside, raw_detection_of car9_inverted,
                  raw_detection_of bus8_inside])))) = {7, 9, 8}
   \<and> history_of
        (fst (process_frame_raw raw_square_test (\<lambda>s r. True) raw_square_counter
           (Some [raw_detection_of car7_inside, raw_detection_of car9_inverted,
                  raw_detection_of bus8_inside]))) 9 = [(50, 50)]"
proof -
  let ?pre = "[raw_detection_of car7_inside]"
  let ?post = "[raw_detection_of bus8_inside]"
  let ?bad = "process_frame_raw raw_square_test (\<lambda>s r. True) raw_square_counter
      (Some (?pre @ car9_infinite # ?post))"
  let ?good = "process_frame_raw raw_square_test (\<lambda>s r. True) raw_square_counter
      (Some (?pre @ raw_detection_of car9_inverted # ?post))"
  have pre: "\<forall>d'\<in>set ?pre. \<not> int_raises (box d')"
    using raw_example_boxes(1) by simp
  have rest: "\<forall>d'\<in>set (raw_detection_of car9_inverted # ?post). \<not> int_raises (box d')"
    using raw_example_boxes(2,3) by simp
  note bad = inverted_detection_handling [OF pre, where d = car9_infinite and post = ?post
      and rppt = raw_square_test and draws = "\<lambda>s r. True" and s = raw_square_counter]
  note good = inverted_detection_handling [OF pre, where d = "raw_detection_of car9_inverted"
      and post = ?post and rppt = raw_square_test and draws = "\<lambda>s r. True"
      and s = raw_square_counter and i = 9]
  have b1: "track_id car9_infinite \<in> fst ` set (current_vehicles_in_frame (fst ?bad))"
    using bad [THEN conjunct1] .
  have b2: "track_id car9_infinite |\<in>| seen_ids (fst ?bad) \<and>
      track_id car9_infinite \<in> fst ` set (current_vehicles_in_roi (fst ?bad))"
    using bad [THEN conjunct2, THEN conjunct1] raw_example_boxes(6) by (rule mp)
  have b3: "?bad = process_frame_raw raw_square_test (\<lambda>s r. True) raw_square_counter
        (Some (?pre @ [car9_infinite])) \<and>
      snd (snd ?bad) = Some (projl (centroid_raw (box car9_infinite)))"
    using bad [THEN conjunct2, THEN conjunct2, THEN conjunct1] raw_example_boxes(4) by (rule mp)
  have g: "snd (snd ?good) =
          (if (\<lambda>s r. True) (fst ?good) (Some (?pre @ raw_detection_of car9_inverted # ?post))
           then None else Some DrawingError) \<and>
        fst ` set (current_vehicles_in_frame (fst ?good)) =
          track_id ` set (?pre @ raw_detection_of car9_inverted # ?post) \<and>
        history_of (fst ?good) 9 =
          foldl append_history (history_of raw_square_counter 9)
            (raw_sightings 9 (?pre @ raw_detection_of car9_inverted # ?post))"
    using good [THEN conjunct2, THEN conjunct2, THEN conjunct2, THEN conjunct1] rest by (rule mp)
  have h: "foldl append_history (history_of raw_square_counter 9)
            (raw_sightings 9 (?pre @ raw_detection_of car9_inverted # ?post)) = [(50, 50)]"
    by (simp add: raw_sightings_def eval_raw_defs)
  have c4: "9 \<in> fst ` set (current_vehicles_in_frame (fst ?bad))"
    using b1 by simp
  have c5: "9 |\<in>| seen_ids (fst ?bad)"
    using b2 by simp
  have c6: "snd (snd ?bad) = Some OverflowError"
    using b3 [THEN conjunct2] by (simp only: raw_example_boxes(5))
  have c7: "?bad = process_frame_raw raw_square_test (\<lambda>s r. True) raw_square_counter
        (Some (?pre @ [car9_infinite]))"
    using b3 [THEN conjunct1] .
  have c10: "snd (snd ?good) = None"
    using g [THEN conjunct1] by simp
  have c11: "fst ` set (current_vehicles_in_frame (fst ?good)) = {7, 9, 8}"
    using g [THEN conjunct2, THEN conjunct1] by simp
  have c12: "history_of (fst ?good) 9 = [(50, 50)]"
    using g [THEN conjunct2, THEN conjunct2] unfolding h .
  show ?thesis
    using raw_example_boxes(1,4,6) c4 c5 c6 c7 raw_example_boxes(2,3) c10 c11 c12
    unfolding append_Cons append_Nil
    by (intro conjI)
qed

text \<open>
  The claim as first stated, that a detection with inverted coordinates is neither
  counted nor stored, fails: the detection with box (60, 60, 40, 40) is stored, counted
  and given a trajectory.
\<close>
theorem inverted_box_counted:
  "snd (process_frame square_test square_counter (Some [car9_inverted])) = [(''car'', 9, 1)]
   \<and> 9 |\<in>| seen_ids (fst (process_frame square_test square_counter (Some [car9_inverted])))
   \<and> vehicle_counts (fst (process_frame square_test square_counter (Some [car9_inverted]))) =
       [(''car'', 1)]
   \<and> current_vehicles_in_frame
       (fst (process_frame square_test square_counter (Some [car9_inverted]))) =
       [(9, \<lparr>vclass = ''car'', vbox = (60, 60, 40, 40), vconfidence = 0.9\<rparr>)]
   \<and> history_of (fst (process_frame square_test square_counter (Some [car9_inverted]))) 9 =
       [(50, 50)]"
  by (simp add: eval_defs fcard_finsert_if)

subsection \<open>The snapshots of the current frame\<close>

text \<open>
  Claim C9. After every call of \<open>process_frame\<close> the identities of the in-ROI snapshot
  are among the identities of the snapshot of all vehicles of the frame, and every
  identity the call has added to \<open>seen_ids\<close> is in the in-ROI snapshot.
\<close>
theorem roi_snapshot_subset:
  "fst ` set (current_vehicles_in_roi (fst (process_frame ppt s r)))
     \<subseteq> fst ` set (current_vehicles_in_frame (fst (process_frame ppt s r)))
   \<and> fset (seen_ids (fst (process_frame ppt s r))) - fset (seen_ids s)
     \<subseteq> fst ` set (current_vehicles_in_roi (fst (process_frame ppt s r)))"
  by (auto simp add: pf_in_frame_keys pf_in_roi_keys pf_seen_ids in_roi_ids_def fset_of_list_elem)

subsection \<open>A defined ROI and its polygon\<close>

text \<open>
  The operations that set \<open>roi_defined\<close> leave a polygon of at least 3 vertices: the
  automatic rhombus and the rectangle have 4, and an interactive definition that is
  confirmed has the at least 3 points it reports. \<open>process_frame\<close>, reset and the main
  loop do not write the ROI, and a \<^verbatim>\<open>run\<close> of a counter without ROI that gets past opening
  the video ends with a defined ROI of at least 3 vertices. An interactive definition
  that is skipped leaves \<open>roi_defined\<close> as it was.
\<close>
lemma roi_operations_polygon:
  "(roi_defined (auto_define_roi s h w) \<and> length (roi_points (auto_define_roi s h w)) = 4)
   \<and> (roi_defined (create_rectangular_roi s h w) \<and>
       length (roi_points (create_rectangular_roi s h w)) = 4)
   \<and> (define_roi_interactive s es = Some (s1, Confirmed n) \<longrightarrow>
        roi_defined s1 \<and> length (roi_points s1) = n \<and> 3 \<le> n)
   \<and> (define_roi_interactive s es = Some (s2, Skipped) \<longrightarrow> roi_defined s2 = roi_defined s)
   \<and> (roi_invariant s \<longrightarrow> roi_invariant (fst (process_frame ppt s r)))
   \<and> (roi_invariant s \<longrightarrow> roi_invariant (reset s))
   \<and> (roi_invariant s \<longrightarrow> roi_invariant (fst (run_loop ppt s fs)))
   \<and> (\<not> roi_defined s \<and> run ppt s True True roi_type es fs = Some (s3, out) \<longrightarrow>
        roi_defined s3 \<and> 3 \<le> length (roi_points s3))"
proof -
  have "define_roi_interactive s es = Some (s1, Confirmed n) \<longrightarrow>
        roi_defined s1 \<and> length (roi_points s1) = n \<and> 3 \<le> n"
    unfolding define_roi_interactive_def by (blast dest: roi_loop_confirmed)
  moreover have "define_roi_interactive s es = Some (s2, Skipped) \<longrightarrow>
        roi_defined s2 = roi_defined s"
    unfolding define_roi_interactive_def using roi_loop_skipped [of "s\<lparr>roi_points := []\<rparr>" es s2]
    by simp
  moreover have "roi_invariant s \<longrightarrow> roi_invariant (fst (process_frame ppt s r))"
    by (simp add: roi_invariant_def)
  moreover have "roi_invariant s \<longrightarrow> roi_invariant (reset s)"
    by (simp add: roi_invariant_def)
  moreover have "roi_invariant s \<longrightarrow> roi_invariant (fst (run_loop ppt s fs))"
    by (simp add: roi_invariant_def)
  moreover have "\<not> roi_defined s \<and> run ppt s True True roi_type es fs = Some (s3, out) \<longrightarrow>
        roi_defined s3 \<and> 3 \<le> length (roi_points s3)"
    using run_roi_defined [of ppt s roi_type es fs s3 out] by blast
  ultimately show ?thesis
    using auto_define_roi_polygon [of s h w] create_rectangular_roi_polygon [of s h w]
    by blast
qed


end
